theory Spec2Isabelle
  imports Main "HOL-Library.Word" "HOL-Library.Char_ord" "HOL-Library.List_Lexorder"
begin

unbundle bit_operations_syntax

section \<open>Data model (lib/types.ts)\<close>

text \<open>
  JavaScript strings are modelled as \<^typ>\<open>string\<close>, numbers that hold timestamps, hours
  and counters as \<^typ>\<open>int\<close>, a \<^verbatim>\<open>Uint8Array\<close> as a list of 8-bit words, and an
  optional or nullable field as an \<^typ>\<open>'a option\<close> (\<^term>\<open>None\<close> for both
  \<^verbatim>\<open>null\<close> and \<^verbatim>\<open>undefined\<close>).
\<close>

type_synonym byte = "8 word"

datatype role = User | Assistant

record message =
  msg_id :: string
  msg_role :: role
  msg_content :: string
  msg_timestamp :: int
  msg_encrypted :: bool
  msg_chatId :: "string option"

datatype healthPlanTemplateId =
  WeightGain8w | Strength8w | FatLoss8w | AnxietyReset14d | SleepReset14d | MobilityReset21d

record healthPlanTask =
  task_id :: string
  task_label :: string
  task_completed :: bool

record healthPlanDay =
  day_number :: int
  day_title :: string
  day_tasks :: "healthPlanTask list"

record healthPlan =
  plan_id :: string
  plan_templateId :: healthPlanTemplateId
  plan_title :: string
  plan_createdAt :: int
  plan_goal :: string
  plan_notes :: string
  plan_durationDays :: int
  plan_days :: "healthPlanDay list"

record conversation =
  c_id :: string
  c_title :: string
  c_messages :: "message list"
  c_createdAt :: int
  c_retentionHours :: "int option"
  c_expiresAt :: "int option"
  c_plans :: "healthPlan list option"

text \<open>\<^verbatim>\<open>EncryptedConversationRecord\<close> of lib/storage.ts; the version tag \<^verbatim>\<open>v\<close> is always 1.\<close>

record encryptedConversationRecord =
  rec_id :: string
  rec_createdAt :: int
  rec_payload :: string
  rec_iv :: string
  rec_salt :: string
  rec_v :: nat

section \<open>The object store (IndexedDB, keyPath \<^verbatim>\<open>id\<close>)\<close>

text \<open>
  The store holds what \<^verbatim>\<open>saveConversation\<close> wrote (encrypted records) and what an
  earlier version of the application left behind (plaintext conversations, the shape that
  \<^verbatim>\<open>isLegacyConversation\<close> recognises). Records are kept in ascending key order, which is
  the order \<^verbatim>\<open>getAll\<close> returns them in; \<^verbatim>\<open>put\<close> replaces a record with the same key.
\<close>

datatype stored = Legacy conversation | Encrypted encryptedConversationRecord

type_synonym store = "stored list"

fun stored_id :: "stored \<Rightarrow> string" where
  "stored_id (Legacy c) = c_id c"
| "stored_id (Encrypted r) = rec_id r"

definition store_put :: "stored \<Rightarrow> store \<Rightarrow> store" where
  "store_put r st = insort_key stored_id r (filter (\<lambda>x. stored_id x \<noteq> stored_id r) st)"

definition store_getAll :: "store \<Rightarrow> stored list" where
  "store_getAll st = st"


definition deleteAllConversations :: "store \<Rightarrow> store" where
  "deleteAllConversations st = []"

section \<open>Retention (app/page.tsx)\<close>

text \<open>
  \<^verbatim>\<open>createEmptyConvo(retentionHours = 24)\<close>. The two effects it reads, \<^verbatim>\<open>Date.now()\<close> and
  \<^verbatim>\<open>crypto.randomUUID()\<close>, are arguments. The test \<^verbatim>\<open>retentionHours ? ... : null\<close> is
  JavaScript truthiness: \<^verbatim>\<open>null\<close> and \<^verbatim>\<open>0\<close> both take the \<^verbatim>\<open>null\<close> branch. The sum is
  taken in the integers, which is what the source's doubles compute as long as it stays
  below \<open>2^53\<close>.
\<close>

definition truthy_num :: "int option \<Rightarrow> bool" where
  "truthy_num x = (case x of None \<Rightarrow> False | Some n \<Rightarrow> n \<noteq> 0)"

definition createEmptyConvo :: "int \<Rightarrow> string \<Rightarrow> int option \<Rightarrow> conversation" where
  "createEmptyConvo now uuid retentionHours =
     \<lparr> c_id = uuid,
       c_title = ''New conversation'',
       c_messages = [],
       c_createdAt = now,
       c_retentionHours = retentionHours,
       c_expiresAt = (if truthy_num retentionHours
                      then Some (now + the retentionHours * 60 * 60 * 1000) else None),
       c_plans = Some [] \<rparr>"





section \<open>JavaScript strings and hex (lib/crypto.ts)\<close>

text \<open>
  A \<^typ>\<open>char\<close> is one code unit below 256. \<^verbatim>\<open>String.prototype.toLowerCase\<close> on such
  code units maps \<^verbatim>\<open>A-Z\<close> and the Latin-1 capitals (\<^verbatim>\<open>U+00C0-U+00DE\<close> but \<^verbatim>\<open>U+00D7\<close>) 32 up.
\<close>

definition lower_char :: "char \<Rightarrow> char" where
  "lower_char c =
     (let n = (of_char c :: nat)
      in if (65 \<le> n \<and> n \<le> 90) \<or> (192 \<le> n \<and> n \<le> 222 \<and> n \<noteq> 215)
         then char_of (n + 32) else c)"

definition toLowerCase :: "string \<Rightarrow> string" where
  "toLowerCase s = map lower_char s"

definition startsWith :: "string \<Rightarrow> string \<Rightarrow> bool" where
  "startsWith s p = (take (length p) s = p)"

text \<open>\<^verbatim>\<open>hex.startsWith("0x") ? hex.slice(2) : hex\<close>, the same as \<^verbatim>\<open>hex.replace(/^0x/, "")\<close>.\<close>

definition strip0x :: "string \<Rightarrow> string" where
  "strip0x hex = (if startsWith hex ''0x'' then drop 2 hex else hex)"

definition digit_val :: "char \<Rightarrow> nat option" where
  "digit_val c =
     (let n = (of_char c :: nat)
      in if 48 \<le> n \<and> n \<le> 57 then Some (n - 48)
         else if 97 \<le> n \<and> n \<le> 102 then Some (n - 87)
         else if 65 \<le> n \<and> n \<le> 70 then Some (n - 55)
         else None)"

definition isHexChar :: "char \<Rightarrow> bool" where
  "isHexChar c = (digit_val c \<noteq> None)"

text \<open>\<^verbatim>\<open>isHex\<close>: the regular expression \<^verbatim>\<open>/^[0-9a-fA-F]+$/\<close>.\<close>

definition isHex :: "string \<Rightarrow> bool" where
  "isHex str = (str \<noteq> [] \<and> list_all isHexChar str)"

text \<open>
  \<^verbatim>\<open>parseInt(s, 16)\<close>: leading white space is skipped, then a sign, then an \<^verbatim>\<open>0x\<close> or
  \<^verbatim>\<open>0X\<close>, and the longest run of hex digits is read; no digit gives \<^verbatim>\<open>NaN\<close> (\<^term>\<open>None\<close>).
\<close>

definition isWhiteSpace :: "char \<Rightarrow> bool" where
  "isWhiteSpace c = ((of_char c :: nat) \<in> {9, 10, 11, 12, 13, 32, 160})"

definition hexValue :: "string \<Rightarrow> nat" where
  "hexValue ds = foldl (\<lambda>acc d. 16 * acc + the (digit_val d)) 0 ds"

definition parseInt16 :: "string \<Rightarrow> int option" where
  "parseInt16 s =
     (let s1 = dropWhile isWhiteSpace s;
          neg = (s1 \<noteq> [] \<and> hd s1 = CHR ''-'');
          s2 = (if s1 \<noteq> [] \<and> (hd s1 = CHR ''-'' \<or> hd s1 = CHR ''+'') then tl s1 else s1);
          s3 = (if startsWith s2 ''0x'' \<or> startsWith s2 ''0X'' then drop 2 s2 else s2);
          ds = takeWhile isHexChar s3
      in if ds = [] then None
         else Some (if neg then - int (hexValue ds) else int (hexValue ds)))"

text \<open>
  A store into a \<^verbatim>\<open>Uint8Array\<close> converts with \<^verbatim>\<open>ToUint8\<close>: \<^verbatim>\<open>NaN\<close> becomes 0 and an integer
  is taken modulo 256.
\<close>

definition toUint8 :: "int option \<Rightarrow> byte" where
  "toUint8 x = (case x of None \<Rightarrow> 0 | Some n \<Rightarrow> word_of_int n)"

text \<open>
  \<^verbatim>\<open>hexToBytes\<close>. The array has \<^verbatim>\<open>floor(clean.length / 2)\<close> elements; the loop reads two
  characters at a time, and the store of a trailing odd character falls outside the array
  and is dropped.
\<close>

fun hexPairs :: "string \<Rightarrow> byte list" where
  "hexPairs (a # b # rest) = toUint8 (parseInt16 [a, b]) # hexPairs rest"
| "hexPairs _ = []"

definition hexToBytes :: "string \<Rightarrow> byte list" where
  "hexToBytes hex = hexPairs (strip0x hex)"

definition hexDigit :: "nat \<Rightarrow> char" where
  "hexDigit n = (if n < 10 then char_of (48 + n) else char_of (87 + n))"

text \<open>\<^verbatim>\<open>b.toString(16).padStart(2, "0")\<close>\<close>

definition byteToHex :: "byte \<Rightarrow> string" where
  "byteToHex b = [hexDigit (unat b div 16), hexDigit (unat b mod 16)]"

definition bytesToHex :: "byte list \<Rightarrow> string" where
  "bytesToHex bytes = concat (map byteToHex bytes)"

definition normalizePubKey :: "string \<Rightarrow> byte list" where
  "normalizePubKey pubKeyHex =
     (let clean = strip0x pubKeyHex;
          bytes = hexToBytes clean
      in if length bytes = 64 then 0x04 # bytes else bytes)"

section \<open>JSON values\<close>

text \<open>
  What \<^verbatim>\<open>res.json()\<close> and \<^verbatim>\<open>JSON.parse\<close> return. A number is kept as the two things the
  program observes of one: whether it is falsy (\<^verbatim>\<open>0\<close>), and its text \<^verbatim>\<open>String(n)\<close>. An object
  is the list of its own properties. A parsed value is a tree: no object occurs in it
  twice, so the \<^verbatim>\<open>WeakSet\<close> of visited objects in \<^verbatim>\<open>findNonceRecursive\<close> never holds the
  node at hand and is left out of the model.
\<close>

datatype json =
    JNull
  | JBool bool
  | JNum bool string
  | JStr string
  | JArr "json list"
  | JObj "(string \<times> json) list"

text \<open>Truthiness; \<^term>\<open>None\<close> is \<^verbatim>\<open>undefined\<close>.\<close>

fun truthy :: "json \<Rightarrow> bool" where
  "truthy JNull = False"
| "truthy (JBool b) = b"
| "truthy (JNum zero _) = (\<not> zero)"
| "truthy (JStr s) = (s \<noteq> [])"
| "truthy (JArr _) = True"
| "truthy (JObj _) = True"

definition truthy_opt :: "json option \<Rightarrow> bool" where
  "truthy_opt x = (case x of None \<Rightarrow> False | Some j \<Rightarrow> truthy j)"

text \<open>
  Reading a property of a value that is neither \<^verbatim>\<open>null\<close> nor \<^verbatim>\<open>undefined\<close>. None of the
  names the program reads (\<^verbatim>\<open>model_attestations\<close>, \<^verbatim>\<open>signing_public_key\<close>, \<^verbatim>\<open>signature\<close>,
  \<^verbatim>\<open>text\<close>, \<^verbatim>\<open>signing_address\<close>, \<^verbatim>\<open>signing_algo\<close>, \<^verbatim>\<open>id\<close>, \<^verbatim>\<open>choices\<close>, \<^verbatim>\<open>delta\<close>,
  \<^verbatim>\<open>content\<close>) is defined on a prototype, so only an object has one. \<^verbatim>\<open>x[0]\<close> is the first
  element of an array, the first character of a string, the property \<^verbatim>\<open>"0"\<close> of an object.
\<close>

fun js_prop :: "json \<Rightarrow> string \<Rightarrow> json option" where
  "js_prop (JObj kvs) k = map_of kvs k"
| "js_prop _ k = None"

fun js_index0 :: "json \<Rightarrow> json option" where
  "js_index0 (JArr xs) = (case xs of [] \<Rightarrow> None | x # _ \<Rightarrow> Some x)"
| "js_index0 (JStr s) = (case s of [] \<Rightarrow> None | c # _ \<Rightarrow> Some (JStr [c]))"
| "js_index0 (JObj kvs) = map_of kvs ''0''"
| "js_index0 _ = None"

text \<open>Optional chaining \<^verbatim>\<open>x?.p\<close>: \<^verbatim>\<open>undefined\<close> when \<^verbatim>\<open>x\<close> is \<^verbatim>\<open>null\<close> or \<^verbatim>\<open>undefined\<close>.\<close>

definition opt_chain :: "json option \<Rightarrow> (json \<Rightarrow> json option) \<Rightarrow> json option" where
  "opt_chain x f = (case x of None \<Rightarrow> None | Some JNull \<Rightarrow> None | Some j \<Rightarrow> f j)"

fun join :: "string \<Rightarrow> string list \<Rightarrow> string" where
  "join sep [] = []"
| "join sep [x] = x"
| "join sep (x # y # ys) = x @ sep @ join sep (y # ys)"

text \<open>
  \<^verbatim>\<open>String(x)\<close>, which is also what \<^verbatim>\<open>s += x\<close> appends: an array is its elements joined by
  commas, \<^verbatim>\<open>null\<close> elements as the empty string.
\<close>

fun js_toString :: "json \<Rightarrow> string" where
  "js_toString JNull = ''null''"
| "js_toString (JBool b) = (if b then ''true'' else ''false'')"
| "js_toString (JNum zero txt) = txt"
| "js_toString (JStr s) = s"
| "js_toString (JArr xs) = join '','' (map (\<lambda>x. if x = JNull then [] else js_toString x) xs)"
| "js_toString (JObj kvs) = ''[object Object]''"

text \<open>
  What the program can raise: the built-in errors, \<^verbatim>\<open>new Error(message)\<close>,
  \<^verbatim>\<open>new Error(message + status)\<close>, and \<open>LibraryError\<close> for an \<^verbatim>\<open>Error\<close> thrown inside the
  curve library on a key or point it does not accept.
\<close>

datatype js_error =
    TypeError
  | SyntaxError
  | OperationError
  | DataError
  | InvalidCharacterError
  | LibraryError
  | Error string
  | ErrorStatus string int

text \<open>
  An HTTP response as the program reads it: \<^verbatim>\<open>res.ok\<close>, \<^verbatim>\<open>res.status\<close>, and what
  \<^verbatim>\<open>await res.json()\<close> gives (\<^term>\<open>None\<close> when the body is not JSON and the call rejects).
\<close>

record response =
  res_ok :: bool
  res_status :: int
  res_json :: "json option"

section \<open>Attestation (lib/crypto.ts, lib/constants.ts)\<close>

definition MODEL_ID :: string where
  "MODEL_ID = ''deepseek-ai/DeepSeek-V3.1''"

definition SIGNING_ALGO :: string where
  "SIGNING_ALGO = ''ecdsa''"

datatype verification_level = LevelNone | LevelFormat | LevelNonce

record attestationReport =
  ar_signingPublicKey :: string
  ar_keyFingerprint :: string
  ar_signingAlgo :: string
  ar_environment :: string
  ar_model :: string
  ar_verified :: bool
  ar_verificationLevel :: verification_level
  ar_nonceMatched :: bool
  ar_nonce :: string
  ar_checkedAt :: int
  ar_note :: string

fun findNonceRecursive :: "json \<Rightarrow> string \<Rightarrow> bool" where
  "findNonceRecursive (JStr node) nonce = (toLowerCase node = toLowerCase nonce)"
| "findNonceRecursive (JArr items) nonce = list_ex (\<lambda>item. findNonceRecursive item nonce) items"
| "findNonceRecursive (JObj kvs) nonce =
     list_ex (\<lambda>value. findNonceRecursive value nonce) (map snd kvs)"
| "findNonceRecursive _ nonce = False"

text \<open>
  The separator inside the fingerprint. The source file holds the three code units
  \<^verbatim>\<open>U+00E2 U+20AC U+00A6\<close> there; \<^verbatim>\<open>U+20AC\<close> is not below 256, and the three are kept as the
  Windows-1252 bytes \<^verbatim>\<open>E2 80 A6\<close> that they stand for.
\<close>

definition ellipsis :: string where
  "ellipsis = [char_of (226::nat), char_of (128::nat), char_of (166::nat)]"

text \<open>
  \<^verbatim>\<open>fetchModelPublicKey\<close> in two parts. The second part, \<open>attestationReport_of\<close>, is the
  function from \<^verbatim>\<open>const signingPublicKey = String(...)\<close> to its \<^verbatim>\<open>return\<close>: it builds the
  report from the parsed body, the nonce, the \<^verbatim>\<open>Date.now()\<close> of the report and the value of
  the signing-key field.
\<close>

definition attestationReport_of :: "json \<Rightarrow> string \<Rightarrow> int \<Rightarrow> json \<Rightarrow> attestationReport" where
  "attestationReport_of data nonce now key =
     (let signingPublicKey = js_toString key;
          cleanKey = strip0x signingPublicKey;
          keyLength = (if startsWith signingPublicKey ''0x''
                       then int (length signingPublicKey) - 2
                       else int (length signingPublicKey));
          keyLooksValid = (isHex cleanKey \<and> keyLength \<in> {128, 130});
          nonceMatched = findNonceRecursive data nonce;
          keyFingerprint =
            (if length cleanKey \<ge> 16
             then take 8 cleanKey @ ellipsis @ drop (length cleanKey - 8) cleanKey
             else cleanKey);
          verificationLevel =
            (if keyLooksValid
             then (if nonceMatched then LevelNonce else LevelFormat)
             else LevelNone);
          note =
            (if verificationLevel = LevelNonce
             then ''Model key format and nonce freshness checks passed.''
             else if verificationLevel = LevelFormat
             then ''Model key format check passed, but nonce echo was not found.''
             else ''Attestation payload did not include a valid model key format.'')
      in \<lparr> ar_signingPublicKey = signingPublicKey,
           ar_keyFingerprint = keyFingerprint,
           ar_signingAlgo = SIGNING_ALGO,
           ar_environment = ''NEAR AI TEE Enclave'',
           ar_model = MODEL_ID,
           ar_verified = (verificationLevel = LevelNonce),
           ar_verificationLevel = verificationLevel,
           ar_nonceMatched = nonceMatched,
           ar_nonce = nonce,
           ar_checkedAt = now,
           ar_note = note \<rparr>)"

text \<open>
  The first part: the request and the guards. Its arguments are the 32 random bytes of the
  nonce, the time, and the outcome of the awaited \<^verbatim>\<open>fetch\<close> (\<^term>\<open>Inl\<close> when the request
  itself fails). \<^verbatim>\<open>data.model_attestations\<close> raises a \<^verbatim>\<open>TypeError\<close> when the body is \<^verbatim>\<open>null\<close>.
\<close>

definition fetchModelPublicKey ::
  "byte list \<Rightarrow> int \<Rightarrow> js_error + response \<Rightarrow> js_error + attestationReport" where
  "fetchModelPublicKey rnd now fetched =
     (let nonce = bytesToHex rnd in
      case fetched of
        Inl e \<Rightarrow> Inl e
      | Inr res \<Rightarrow>
          if \<not> res_ok res then Inl (ErrorStatus ''Attestation request failed: '' (res_status res))
          else (case res_json res of
            None \<Rightarrow> Inl SyntaxError
          | Some data \<Rightarrow>
              if data = JNull then Inl TypeError
              else
                let modelAttestation = opt_chain (js_prop data ''model_attestations'') js_index0;
                    key = opt_chain modelAttestation (\<lambda>m. js_prop m ''signing_public_key'')
                in if \<not> truthy_opt key
                   then Inl (Error ''No model public key in attestation response'')
                   else Inr (attestationReport_of data nonce now (the key))))"

text \<open>
  The words of the specification, for comparison with the code. A signing key is
  \<^emph>\<open>format valid\<close> when, an optional \<^verbatim>\<open>0x\<close> prefix ignored, it is 128 or 130 hex characters.
  The nonce is \<^emph>\<open>matched\<close> when some string anywhere in the parsed body (an element of an
  array or a value of an object, at any depth) equals it up to letter case.
\<close>

definition spec_format_valid :: "string \<Rightarrow> bool" where
  "spec_format_valid k =
     (let k' = (if take 2 k = ''0x'' then drop 2 k else k)
      in (length k' = 128 \<or> length k' = 130) \<and> (\<forall>c \<in> set k'. isHexChar c))"

fun json_strings :: "json \<Rightarrow> string list" where
  "json_strings (JStr s) = [s]"
| "json_strings (JArr xs) = concat (map json_strings xs)"
| "json_strings (JObj kvs) = concat (map (\<lambda>kv. json_strings (snd kv)) kvs)"
| "json_strings _ = []"

definition spec_nonce_matched :: "json \<Rightarrow> string \<Rightarrow> bool" where
  "spec_nonce_matched body nonce =
     (\<exists>s \<in> set (json_strings body). toLowerCase s = toLowerCase nonce)"

text \<open>
  The signing-key field the check reads: \<^verbatim>\<open>data.model_attestations?.[0]?.signing_public_key\<close>.
\<close>

definition attested_key :: "json \<Rightarrow> json option" where
  "attested_key data =
     opt_chain (opt_chain (js_prop data ''model_attestations'') js_index0)
       (\<lambda>m. js_prop m ''signing_public_key'')"

section \<open>Response integrity (lib/crypto.ts, lib/near-ai.ts)\<close>

text \<open>
  A \<^verbatim>\<open>ChatSignature\<close> holds whatever values the body had under the four names; only
  \<^verbatim>\<open>text\<close> and \<^verbatim>\<open>signature\<close> are tested (for truthiness) before the record is built.
\<close>

record chatSignature =
  sig_text :: json
  sig_signature :: json
  sig_signingAddress :: "json option"
  sig_signingAlgo :: "json option"

record chatVerificationResult =
  cv_chatId :: string
  cv_requestHash :: string
  cv_responseHash :: string
  cv_signatureFetched :: bool
  cv_signatureTextMatches :: bool
  cv_signature :: "chatSignature option"

definition fetchChatSignature :: "js_error + response \<Rightarrow> js_error + chatSignature option" where
  "fetchChatSignature fetched =
     (case fetched of
        Inl e \<Rightarrow> Inl e
      | Inr res \<Rightarrow>
          if \<not> res_ok res then Inr None
          else (case res_json res of
            None \<Rightarrow> Inl SyntaxError
          | Some data \<Rightarrow>
              if \<not> truthy_opt (opt_chain (Some data) (\<lambda>d. js_prop d ''signature''))
                 \<or> \<not> truthy_opt (opt_chain (Some data) (\<lambda>d. js_prop d ''text''))
              then Inr None
              else Inr (Some \<lparr> sig_text = the (js_prop data ''text''),
                                sig_signature = the (js_prop data ''signature''),
                                sig_signingAddress = js_prop data ''signing_address'',
                                sig_signingAlgo = js_prop data ''signing_algo'' \<rparr>)))"

text \<open>
  \<^verbatim>\<open>buildVerification\<close>. \<^verbatim>\<open>signature?.text === expected\<close> is strict equality with a string:
  it holds only for a string value with the same characters.
\<close>

definition buildVerification ::
  "string \<Rightarrow> string \<Rightarrow> string \<Rightarrow> js_error + response \<Rightarrow> js_error + chatVerificationResult" where
  "buildVerification chatId requestHash responseHash fetched =
     (case fetchChatSignature fetched of
        Inl e \<Rightarrow> Inl e
      | Inr signature \<Rightarrow>
          let expected = requestHash @ '':'' @ responseHash;
              textMatches = (case signature of None \<Rightarrow> False
                             | Some sg \<Rightarrow> sig_text sg = JStr expected)
          in Inr \<lparr> cv_chatId = chatId,
                   cv_requestHash = requestHash,
                   cv_responseHash = responseHash,
                   cv_signatureFetched = (signature \<noteq> None),
                   cv_signatureTextMatches = textMatches,
                   cv_signature = signature \<rparr>)"

section \<open>Message cipher (lib/crypto.ts)\<close>

text \<open>
  The cryptographic primitives are not part of the repository: the curve and the key
  derivation come from \<^verbatim>\<open>@noble/curves\<close> and \<^verbatim>\<open>@noble/hashes\<close>, the cipher, the random
  source and the text codec from the platform. They are the fields of a record that every
  function of the cipher takes as its first argument. \<^typ>\<open>'r\<close> is the state of the random
  source; drawing from it returns the bytes and the next state.

  \<^item> \<open>randomSecretKey\<close>: \<^verbatim>\<open>secp256k1.utils.randomSecretKey()\<close>
  \<^item> \<open>getPublicKey sk\<close>: \<^verbatim>\<open>secp256k1.getPublicKey(sk, false)\<close>, the uncompressed point
  \<^item> \<open>getSharedSecret sk pub\<close>: \<^verbatim>\<open>secp256k1.getSharedSecret(sk, pub, false)\<close>; \<^term>\<open>None\<close>
    when the library throws
  \<^item> \<open>hkdf_sha256 ikm info n\<close>: \<^verbatim>\<open>hkdf(sha256, ikm, undefined, info, n)\<close>
  \<^item> \<open>getRandomValues n\<close>: \<^verbatim>\<open>crypto.getRandomValues(new Uint8Array(n))\<close>
  \<^item> \<open>aesGcmEncrypt key iv data\<close>, \<open>aesGcmDecrypt key iv data\<close>: \<^verbatim>\<open>crypto.subtle.encrypt\<close>
    and \<^verbatim>\<open>crypto.subtle.decrypt\<close> with \<^verbatim>\<open>{name: "AES-GCM", iv}\<close>; \<^term>\<open>None\<close> when
    decryption rejects
  \<^item> \<open>textEncode\<close>, \<open>textDecode\<close>: \<^verbatim>\<open>new TextEncoder().encode\<close>, \<^verbatim>\<open>new TextDecoder().decode\<close>
\<close>

record 'r platform =
  randomSecretKey :: "'r \<Rightarrow> byte list \<times> 'r"
  getPublicKey :: "byte list \<Rightarrow> byte list"
  getSharedSecret :: "byte list \<Rightarrow> byte list \<Rightarrow> byte list option"
  hkdf_sha256 :: "byte list \<Rightarrow> byte list \<Rightarrow> nat \<Rightarrow> byte list"
  getRandomValues :: "nat \<Rightarrow> 'r \<Rightarrow> byte list \<times> 'r"
  aesGcmEncrypt :: "byte list \<Rightarrow> byte list \<Rightarrow> byte list \<Rightarrow> byte list"
  aesGcmDecrypt :: "byte list \<Rightarrow> byte list \<Rightarrow> byte list \<Rightarrow> byte list option"
  textEncode :: "string \<Rightarrow> byte list"
  textDecode :: "byte list \<Rightarrow> string"

record e2eeKeys =
  publicKeyHex :: string
  privateKey :: "byte list"

text \<open>
  \<^verbatim>\<open>crypto.subtle.importKey("raw", key, {name: "AES-GCM"}, ...)\<close> accepts a key of 128, 192
  or 256 bits and rejects any other with a \<^verbatim>\<open>DataError\<close>.
\<close>

definition importKey :: "byte list \<Rightarrow> js_error + byte list" where
  "importKey raw = (if length raw \<in> {16, 24, 32} then Inr raw else Inl DataError)"

definition generateClientKeys :: "'r platform \<Rightarrow> 'r \<Rightarrow> e2eeKeys \<times> 'r" where
  "generateClientKeys W rng =
     (let (sk, rng') = randomSecretKey W rng;
          publicKey = getPublicKey W sk
      in (\<lparr> publicKeyHex = bytesToHex publicKey, privateKey = sk \<rparr>, rng'))"

definition encryptMessageWithClientKeys ::
  "'r platform \<Rightarrow> string \<Rightarrow> string \<Rightarrow> e2eeKeys \<Rightarrow> 'r \<Rightarrow> js_error + string \<times> 'r" where
  "encryptMessageWithClientKeys W plaintext modelPubKeyHex clientKeys rng =
     (let modelPubKeyBytes = normalizePubKey modelPubKeyHex in
      case getSharedSecret W (privateKey clientKeys) modelPubKeyBytes of
        None \<Rightarrow> Inl LibraryError
      | Some sharedSecretFull \<Rightarrow>
          let sharedSecret = take 32 (drop 1 sharedSecretFull);
              derivedKey = hkdf_sha256 W sharedSecret (textEncode W ''ecdsa_encryption'') 32;
              (nonce, rng') = getRandomValues W 12 rng;
              plaintextBytes = textEncode W plaintext
          in case importKey derivedKey of
               Inl e \<Rightarrow> Inl e
             | Inr cryptoKeyObj \<Rightarrow>
                 let ciphertextWithTag = aesGcmEncrypt W cryptoKeyObj nonce plaintextBytes;
                     ephemeralPub = normalizePubKey (publicKeyHex clientKeys);
                     combined = ephemeralPub @ nonce @ ciphertextWithTag
                 in Inr (bytesToHex combined, rng'))"

definition decryptResponse :: "'r platform \<Rightarrow> string \<Rightarrow> byte list \<Rightarrow> js_error + string" where
  "decryptResponse W encryptedHex clientPrivateKey =
     (let data = hexToBytes encryptedHex;
          ephemeralPub = take 65 data;
          nonce = take 12 (drop 65 data);
          ciphertextWithTag = drop 77 data
      in case getSharedSecret W clientPrivateKey ephemeralPub of
           None \<Rightarrow> Inl LibraryError
         | Some sharedSecretFull \<Rightarrow>
             let sharedSecret = take 32 (drop 1 sharedSecretFull);
                 derivedKey = hkdf_sha256 W sharedSecret (textEncode W ''ecdsa_encryption'') 32
             in case importKey derivedKey of
                  Inl e \<Rightarrow> Inl e
                | Inr cryptoKeyObj \<Rightarrow>
                    (case aesGcmDecrypt W cryptoKeyObj nonce ciphertextWithTag of
                       None \<Rightarrow> Inl OperationError
                     | Some decrypted \<Rightarrow> Inr (textDecode W decrypted)))"

text \<open>
  The contracts of the primitives that the properties of the cipher rest on. A key pair is
  what \<^verbatim>\<open>generateClientKeys\<close> builds from a secret key whose public point has 65 bytes; two
  secret keys agree when each, with the other's public key, gives the same shared point.
\<close>

definition keypair_of :: "'r platform \<Rightarrow> byte list \<Rightarrow> e2eeKeys" where
  "keypair_of W sk = \<lparr> publicKeyHex = bytesToHex (getPublicKey W sk), privateKey = sk \<rparr>"

definition valid_secret :: "'r platform \<Rightarrow> byte list \<Rightarrow> bool" where
  "valid_secret W sk = (length (getPublicKey W sk) = 65)"

definition ecdh_agree :: "'r platform \<Rightarrow> byte list \<Rightarrow> byte list \<Rightarrow> bool" where
  "ecdh_agree W a b =
     (getSharedSecret W a (getPublicKey W b) \<noteq> None \<and>
      getSharedSecret W a (getPublicKey W b) = getSharedSecret W b (getPublicKey W a))"

definition hkdf_length :: "'r platform \<Rightarrow> bool" where
  "hkdf_length W = (\<forall>ikm info n. length (hkdf_sha256 W ikm info n) = n)"

definition random_length :: "('r, 'm) platform_scheme \<Rightarrow> bool" where
  "random_length W = (\<forall>n rng. length (fst (getRandomValues W n rng)) = n)"

definition aead_correct :: "('r, 'm) platform_scheme \<Rightarrow> bool" where
  "aead_correct W = (\<forall>key nonce data. aesGcmDecrypt W key nonce (aesGcmEncrypt W key nonce data) = Some data)"

definition gcm_tag_length :: "'r platform \<Rightarrow> bool" where
  "gcm_tag_length W = (\<forall>key nonce data. length (aesGcmEncrypt W key nonce data) = length data + 16)"

text \<open>
  A small instance of the primitives, to run the cipher on: secrets and random bytes come
  from a counter, the shared point of two keys is the exclusive or of their padded secrets,
  and the cipher shifts every byte and appends a 16-byte tag taken from the key and nonce.
\<close>

definition pad64 :: "byte list \<Rightarrow> byte list" where
  "pad64 sk = take 64 (sk @ replicate 64 0)"

definition toy_tag :: "byte list \<Rightarrow> byte list \<Rightarrow> byte list" where
  "toy_tag key nonce = take 16 (key @ nonce @ replicate 16 0)"

definition toy_platform :: "nat platform" where
  "toy_platform =
     \<lparr> randomSecretKey = (\<lambda>rng. (replicate 32 (of_nat rng + 1), rng + 1)),
       getPublicKey = (\<lambda>sk. 0x04 # pad64 sk),
       getSharedSecret = (\<lambda>sk pub.
          if length pub = 65 then Some (0x04 # map2 (XOR) (pad64 sk) (tl pub)) else None),
       hkdf_sha256 = (\<lambda>ikm info n. take n (ikm @ info @ replicate n 0)),
       getRandomValues = (\<lambda>n rng. (replicate n (of_nat rng + 1), rng + 1)),
       aesGcmEncrypt = (\<lambda>key nonce data. map (\<lambda>b. b + 1) data @ toy_tag key nonce),
       aesGcmDecrypt = (\<lambda>key nonce data.
          if 16 \<le> length data \<and> drop (length data - 16) data = toy_tag key nonce
          then Some (map (\<lambda>b. b - 1) (take (length data - 16) data)) else None),
       textEncode = map (\<lambda>c. of_nat (of_char c)),
       textDecode = map (\<lambda>b. char_of (unat b)) \<rparr>"

text \<open>
  The same instance with a text codec that treats the byte order mark as \<^verbatim>\<open>TextEncoder\<close> and
  \<^verbatim>\<open>new TextDecoder()\<close> do. Here a string is text in its UTF-8 form, one \<^typ>\<open>char\<close> per
  byte: the encoder returns the bytes, and the decoder drops a leading \<^verbatim>\<open>EF BB BF\<close>, the
  UTF-8 form of \<^verbatim>\<open>U+FEFF\<close>, before it returns the rest.
\<close>

definition bom_platform :: "nat platform" where
  "bom_platform =
     toy_platform\<lparr> textDecode := (\<lambda>bs.
        map (\<lambda>b. char_of (unat b)) (if take 3 bs = [0xEF, 0xBB, 0xBF] then drop 3 bs else bs)) \<rparr>"

section \<open>The streamed exchange (lib/near-ai.ts)\<close>

datatype chat_role = RoleSystem | RoleUser | RoleAssistant

record chat_message =
  cm_role :: chat_role
  cm_content :: string

text \<open>
  The loop of \<^verbatim>\<open>streamChat\<close> that replaces the content of every message by its encryption,
  all under the same \<^verbatim>\<open>clientKeys\<close>; the random source is threaded through the calls.
\<close>

fun encryptMessages ::
  "'r platform \<Rightarrow> string \<Rightarrow> e2eeKeys \<Rightarrow> chat_message list \<Rightarrow> 'r
     \<Rightarrow> js_error + chat_message list \<times> 'r" where
  "encryptMessages W modelPubKeyHex clientKeys [] rng = Inr ([], rng)"
| "encryptMessages W modelPubKeyHex clientKeys (m # ms) rng =
     (case encryptMessageWithClientKeys W (cm_content m) modelPubKeyHex clientKeys rng of
        Inl e \<Rightarrow> Inl e
      | Inr (encrypted, rng1) \<Rightarrow>
          (case encryptMessages W modelPubKeyHex clientKeys ms rng1 of
             Inl e \<Rightarrow> Inl e
           | Inr (ms', rng2) \<Rightarrow> Inr (m\<lparr>cm_content := encrypted\<rparr> # ms', rng2)))"

record chat_request =
  rq_messages :: "chat_message list"
  rq_nearHeaders :: "(string \<times> string) list"
  rq_clientKeys :: "e2eeKeys option"

text \<open>
  \<^verbatim>\<open>streamChat\<close> up to the request: the message list, and with \<^verbatim>\<open>useE2EE\<close> the attestation,
  the client keys, the headers and the encryption of the messages. \<open>systemPrompt\<close> is the
  constant \<^verbatim>\<open>SYSTEM_PROMPT\<close>, \<open>attestation\<close> the outcome of \<^verbatim>\<open>await getAttestation(apiKey)\<close>.
\<close>

definition streamChat_prepare ::
  "'r platform \<Rightarrow> string \<Rightarrow> string \<Rightarrow> chat_message list \<Rightarrow> bool
     \<Rightarrow> js_error + attestationReport \<Rightarrow> 'r \<Rightarrow> js_error + chat_request \<times> 'r" where
  "streamChat_prepare W systemPrompt message history useE2EE attestation rng =
     (let messages =
            [\<lparr> cm_role = RoleSystem, cm_content = systemPrompt \<rparr>]
            @ map (\<lambda>h. \<lparr> cm_role = cm_role h, cm_content = cm_content h \<rparr>) history
            @ [\<lparr> cm_role = RoleUser, cm_content = message \<rparr>]
      in if useE2EE
         then (case attestation of
                 Inl e \<Rightarrow> Inl e
               | Inr att \<Rightarrow>
                   let (clientKeys, rng1) = generateClientKeys W rng;
                       nearHeaders = [(''X-Signing-Algo'', SIGNING_ALGO),
                                      (''X-Client-Pub-Key'', publicKeyHex clientKeys),
                                      (''X-Model-Pub-Key'', ar_signingPublicKey att)]
                   in (case encryptMessages W (ar_signingPublicKey att) clientKeys messages rng1 of
                         Inl e \<Rightarrow> Inl e
                       | Inr (encrypted, rng2) \<Rightarrow>
                           Inr (\<lparr> rq_messages = encrypted, rq_nearHeaders = nearHeaders,
                                  rq_clientKeys = Some clientKeys \<rparr>, rng2)))
         else Inr (\<lparr> rq_messages = messages, rq_nearHeaders = [], rq_clientKeys = None \<rparr>, rng))"

text \<open>
  The read loop of \<^verbatim>\<open>streamChat\<close>. Its state is what the loop assigns: \<^verbatim>\<open>fullContent\<close>,
  \<^verbatim>\<open>latestChatId\<close>, and the calls it makes to the two callbacks, in order. The callbacks are
  taken to return normally. \<open>parse\<close> is \<^verbatim>\<open>JSON.parse\<close>, with \<^term>\<open>None\<close> when it throws.
\<close>

record stream_state =
  fullContent :: string
  latestChatId :: json
  onChunk_calls :: "json list"
  onChatId_calls :: "json list"

text \<open>\<^verbatim>\<open>String.prototype.trim\<close>\<close>

definition trim :: "string \<Rightarrow> string" where
  "trim s = rev (dropWhile isWhiteSpace (rev (dropWhile isWhiteSpace s)))"

text \<open>
  \<^verbatim>\<open>await decryptResponse(delta, clientKeys.privateKey)\<close> on the value of the \<^verbatim>\<open>content\<close>
  field: a value that is not a string has no \<^verbatim>\<open>startsWith\<close>, and \<^verbatim>\<open>hexToBytes\<close> raises a
  \<^verbatim>\<open>TypeError\<close>.
\<close>

definition decryptDelta :: "'r platform \<Rightarrow> json \<Rightarrow> byte list \<Rightarrow> js_error + string" where
  "decryptDelta W delta clientPrivateKey =
     (case delta of JStr s \<Rightarrow> decryptResponse W s clientPrivateKey | _ \<Rightarrow> Inl TypeError)"

text \<open>
  The body of \<^verbatim>\<open>for (const line of lines)\<close>. Every exit of the source that leaves the
  state as it is (\<^verbatim>\<open>continue\<close>, and the outer \<^verbatim>\<open>catch\<close> that skips a malformed line) returns
  the state; \<open>hasOnChatId\<close> tells whether the caller passed \<^verbatim>\<open>onChatId\<close>. A parsed \<^verbatim>\<open>null\<close>
  raises a \<^verbatim>\<open>TypeError\<close> at the first property read, which the outer \<^verbatim>\<open>catch\<close> swallows.
\<close>

definition handleLine ::
  "'r platform \<Rightarrow> (string \<Rightarrow> json option) \<Rightarrow> bool \<Rightarrow> e2eeKeys option \<Rightarrow> bool
     \<Rightarrow> string \<Rightarrow> stream_state \<Rightarrow> stream_state" where
  "handleLine W parse useE2EE clientKeys hasOnChatId line st =
     (let trimmed = trim line in
      if \<not> startsWith trimmed ''data: '' then st
      else
        let data = drop 6 trimmed in
        if data = ''[DONE]'' then st
        else (case parse data of
          None \<Rightarrow> st
        | Some parsed \<Rightarrow>
            if parsed = JNull then st
            else
              let st1 = (if hasOnChatId \<and> truthy_opt (js_prop parsed ''id'')
                         then st\<lparr> latestChatId := the (js_prop parsed ''id''),
                                 onChatId_calls := onChatId_calls st @ [the (js_prop parsed ''id'')] \<rparr>
                         else st);
                  delta = opt_chain (opt_chain (opt_chain (js_prop parsed ''choices'') js_index0)
                             (\<lambda>choice. js_prop choice ''delta''))
                             (\<lambda>d. js_prop d ''content'')
              in if \<not> truthy_opt delta then st1
                 else if useE2EE \<and> clientKeys \<noteq> None
                 then (case decryptDelta W (the delta) (privateKey (the clientKeys)) of
                         Inr decrypted \<Rightarrow>
                           st1\<lparr> fullContent := fullContent st1 @ decrypted,
                                onChunk_calls := onChunk_calls st1 @ [JStr decrypted] \<rparr>
                       | Inl e \<Rightarrow>
                           st1\<lparr> fullContent := fullContent st1 @ js_toString (the delta),
                                onChunk_calls := onChunk_calls st1 @ [the delta] \<rparr>)
                 else st1\<lparr> fullContent := fullContent st1 @ js_toString (the delta),
                           onChunk_calls := onChunk_calls st1 @ [the delta] \<rparr>))"

text \<open>\<^verbatim>\<open>buffer.split("\n")\<close>\<close>

fun split_nl :: "string \<Rightarrow> string list" where
  "split_nl [] = [[]]"
| "split_nl (c # cs) =
     (if c = CHR 0x0A then [] # split_nl cs
      else (case split_nl cs of [] \<Rightarrow> [[c]] | p # ps \<Rightarrow> (c # p) # ps))"

text \<open>
  One turn of \<^verbatim>\<open>while (true)\<close> on a decoded chunk: the chunk is added to \<^verbatim>\<open>rawResponse\<close> and to
  the buffer, the buffer is split, its last piece is kept as the new buffer, and the lines
  before it are handled in order. The loop as a whole runs over the chunks the reader
  returns before \<^verbatim>\<open>done\<close>.
\<close>

record read_state =
  rs_stream :: stream_state
  rs_buffer :: string
  rs_rawResponse :: string

definition handleChunk ::
  "'r platform \<Rightarrow> (string \<Rightarrow> json option) \<Rightarrow> bool \<Rightarrow> e2eeKeys option \<Rightarrow> bool
     \<Rightarrow> string \<Rightarrow> read_state \<Rightarrow> read_state" where
  "handleChunk W parse useE2EE clientKeys hasOnChatId decodedChunk rs =
     (let rawResponse = rs_rawResponse rs @ decodedChunk;
          buffer = rs_buffer rs @ decodedChunk;
          pieces = split_nl buffer;
          lines = butlast pieces
      in \<lparr> rs_stream = fold (handleLine W parse useE2EE clientKeys hasOnChatId) lines (rs_stream rs),
           rs_buffer = last pieces,
           rs_rawResponse = rawResponse \<rparr>)"

definition streamChat_read ::
  "'r platform \<Rightarrow> (string \<Rightarrow> json option) \<Rightarrow> bool \<Rightarrow> e2eeKeys option \<Rightarrow> bool
     \<Rightarrow> string list \<Rightarrow> read_state" where
  "streamChat_read W parse useE2EE clientKeys hasOnChatId chunks =
     fold (handleChunk W parse useE2EE clientKeys hasOnChatId) chunks
       \<lparr> rs_stream = \<lparr> fullContent = [], latestChatId = JStr [], onChunk_calls = [],
                        onChatId_calls = [] \<rparr>,
         rs_buffer = [], rs_rawResponse = [] \<rparr>"

text \<open>
  For the statements about the loop: the \<^verbatim>\<open>content\<close> value a line carries, if it carries one
  (a \<^verbatim>\<open>data: \<close> line other than \<^verbatim>\<open>[DONE]\<close> that parses to a value with a truthy
  \<^verbatim>\<open>choices[0].delta.content\<close>), and the deltas of a sequence of lines.
\<close>

definition line_delta :: "(string \<Rightarrow> json option) \<Rightarrow> string \<Rightarrow> json option" where
  "line_delta parse line =
     (let trimmed = trim line in
      if \<not> startsWith trimmed ''data: '' \<or> drop 6 trimmed = ''[DONE]'' then None
      else (case parse (drop 6 trimmed) of
        None \<Rightarrow> None
      | Some parsed \<Rightarrow>
          let delta = opt_chain (opt_chain (opt_chain (Some parsed) (\<lambda>p. js_prop p ''choices''))
                         js_index0) (\<lambda>choice. js_prop choice ''delta'') in
          let content = opt_chain delta (\<lambda>d. js_prop d ''content'')
          in if truthy_opt content then content else None))"

definition deltas :: "(string \<Rightarrow> json option) \<Rightarrow> string list \<Rightarrow> json list" where
  "deltas parse lines = concat (map (\<lambda>line. case line_delta parse line of None \<Rightarrow> [] | Some d \<Rightarrow> [d]) lines)"

text \<open>
  What the loop hands to \<^verbatim>\<open>onChunk\<close> for a delta when end-to-end encryption is on: the
  decrypted text, or the delta itself when \<^verbatim>\<open>decryptResponse\<close> fails.
\<close>

definition delivered_for :: "'r platform \<Rightarrow> e2eeKeys \<Rightarrow> json \<Rightarrow> json" where
  "delivered_for W keys d =
     (case decryptDelta W d (privateKey keys) of Inr decrypted \<Rightarrow> JStr decrypted | Inl e \<Rightarrow> d)"

text \<open>A parser for the examples: it knows two event records and rejects everything else.\<close>

definition toy_parse :: "string \<Rightarrow> json option" where
  "toy_parse s =
     (if s = ''{\"choices\":[{\"delta\":{\"content\":\"hello\"}}]}''
      then Some (JObj [(''choices'', JArr [JObj [(''delta'', JObj [(''content'', JStr ''hello'')])]])])
      else if s = ''{\"choices\":[{\"delta\":{\"content\":\" world\"}}]}''
      then Some (JObj [(''choices'', JArr [JObj [(''delta'', JObj [(''content'', JStr '' world'')])]])])
      else None)"

section \<open>Encrypted vault (lib/storage.ts)\<close>

text \<open>
  The vault uses the cipher, the random source and the text codec of the platform, and in
  addition

  \<^item> \<open>pbkdf2_sha256 password salt iterations\<close>: the 256-bit key that \<^verbatim>\<open>crypto.subtle.deriveKey\<close>
    derives with \<^verbatim>\<open>{name: "PBKDF2", hash: "SHA-256", salt, iterations}\<close>
  \<^item> \<open>JSON_stringify\<close>, \<open>JSON_parse\<close>: \<^verbatim>\<open>JSON.stringify\<close> of a conversation, and \<^verbatim>\<open>JSON.parse\<close> read
    as a conversation (\<^term>\<open>None\<close> when it throws)
  \<^item> \<open>btoa\<close>, \<open>atob\<close>: base64 of a binary string, which the model identifies with the bytes of
    its characters (\<^term>\<open>None\<close> when \<^verbatim>\<open>atob\<close> throws)
\<close>

record 'r vault_platform = "'r platform" +
  pbkdf2_sha256 :: "byte list \<Rightarrow> byte list \<Rightarrow> nat \<Rightarrow> byte list"
  JSON_stringify :: "conversation \<Rightarrow> string"
  JSON_parse :: "string \<Rightarrow> conversation option"
  btoa :: "byte list \<Rightarrow> string"
  atob :: "string \<Rightarrow> byte list option"

definition PBKDF2_ITERATIONS :: nat where
  "PBKDF2_ITERATIONS = 210000"

definition bytesToBase64 :: "'r vault_platform \<Rightarrow> byte list \<Rightarrow> string" where
  "bytesToBase64 V bytes = btoa V bytes"

definition base64ToBytes :: "'r vault_platform \<Rightarrow> string \<Rightarrow> js_error + byte list" where
  "base64ToBytes V base64 =
     (case atob V base64 of None \<Rightarrow> Inl InvalidCharacterError | Some binary \<Rightarrow> Inr binary)"

definition deriveAesKey :: "'r vault_platform \<Rightarrow> string \<Rightarrow> byte list \<Rightarrow> byte list" where
  "deriveAesKey V passphrase salt =
     pbkdf2_sha256 V (textEncode V passphrase) salt PBKDF2_ITERATIONS"

definition encryptConversation ::
  "'r vault_platform \<Rightarrow> conversation \<Rightarrow> string \<Rightarrow> 'r \<Rightarrow> encryptedConversationRecord \<times> 'r" where
  "encryptConversation V conversation passphrase rng =
     (let (salt, rng1) = getRandomValues V 16 rng;
          (iv, rng2) = getRandomValues V 12 rng1;
          key = deriveAesKey V passphrase salt;
          plaintext = textEncode V (JSON_stringify V conversation);
          encrypted = aesGcmEncrypt V key iv plaintext
      in (\<lparr> rec_id = c_id conversation,
            rec_createdAt = c_createdAt conversation,
            rec_payload = bytesToBase64 V encrypted,
            rec_iv = bytesToBase64 V iv,
            rec_salt = bytesToBase64 V salt,
            rec_v = 1 \<rparr>, rng2))"

definition decryptConversation ::
  "'r vault_platform \<Rightarrow> encryptedConversationRecord \<Rightarrow> string \<Rightarrow> js_error + conversation" where
  "decryptConversation V record passphrase =
     (case base64ToBytes V (rec_salt record) of
        Inl e \<Rightarrow> Inl e
      | Inr salt \<Rightarrow>
     (case base64ToBytes V (rec_iv record) of
        Inl e \<Rightarrow> Inl e
      | Inr iv \<Rightarrow>
     (case base64ToBytes V (rec_payload record) of
        Inl e \<Rightarrow> Inl e
      | Inr encrypted \<Rightarrow>
          let key = deriveAesKey V passphrase salt
          in (case aesGcmDecrypt V key iv encrypted of
                None \<Rightarrow> Inl OperationError
              | Some plaintext \<Rightarrow>
                  (case JSON_parse V (textDecode V plaintext) of
                     None \<Rightarrow> Inl SyntaxError
                   | Some conversation \<Rightarrow> Inr conversation)))))"

text \<open>
  \<^verbatim>\<open>saveConversation\<close> and \<^verbatim>\<open>getAllConversations\<close> on the store; the database is taken to
  open and its transactions to complete. \<^verbatim>\<open>Promise.all\<close> over the records rejects as soon as
  one of them rejects and otherwise resolves with the results in the order of the records;
  the model reports the error of the first record, in that order, that fails (which
  rejection comes first in time is not modelled; nothing below depends on which error it is).
  \<^verbatim>\<open>decrypted.sort((a, b) => b.createdAt - a.createdAt)\<close> is a stable sort.
\<close>

definition saveConversation ::
  "'r vault_platform \<Rightarrow> conversation \<Rightarrow> string \<Rightarrow> store \<times> 'r \<Rightarrow> js_error + store \<times> 'r" where
  "saveConversation V conversation passphrase s =
     (if passphrase = [] then Inl (Error ''Vault is locked'')
      else let (record, rng') = encryptConversation V conversation passphrase (snd s)
           in Inr (store_put (Encrypted record) (fst s), rng'))"

fun loadItem :: "'r vault_platform \<Rightarrow> string \<Rightarrow> stored \<Rightarrow> js_error + conversation" where
  "loadItem V passphrase (Legacy item) = Inr item"
| "loadItem V passphrase (Encrypted item) = decryptConversation V item passphrase"

fun promise_all :: "(js_error + 'a) list \<Rightarrow> js_error + 'a list" where
  "promise_all [] = Inr []"
| "promise_all (Inl e # ps) = Inl e"
| "promise_all (Inr x # ps) = (case promise_all ps of Inl e \<Rightarrow> Inl e | Inr xs \<Rightarrow> Inr (x # xs))"

definition getAllConversations ::
  "'r vault_platform \<Rightarrow> string \<Rightarrow> store \<Rightarrow> js_error + conversation list" where
  "getAllConversations V passphrase st =
     (if passphrase = [] then Inr []
      else let records = store_getAll st
           in (case promise_all (map (loadItem V passphrase) records) of
                 Inl e \<Rightarrow> Inl e
               | Inr decrypted \<Rightarrow> Inr (sort_key (\<lambda>a. - c_createdAt a) decrypted)))"

text \<open>The contracts of the primitives that the properties of the vault rest on.\<close>

definition base64_correct :: "'r vault_platform \<Rightarrow> bool" where
  "base64_correct V = (\<forall>bytes. atob V (btoa V bytes) = Some bytes)"

definition json_roundtrip :: "'r vault_platform \<Rightarrow> conversation \<Rightarrow> bool" where
  "json_roundtrip V c =
     (textDecode V (textEncode V (JSON_stringify V c)) = JSON_stringify V c
      \<and> JSON_parse V (JSON_stringify V c) = Some c)"

definition wrong_key_rejected :: "'r vault_platform \<Rightarrow> string \<Rightarrow> string \<Rightarrow> bool" where
  "wrong_key_rejected V p w =
     (\<forall>salt iv data.
        aesGcmDecrypt V (deriveAesKey V w salt) iv (aesGcmEncrypt V (deriveAesKey V p salt) iv data)
          = None)"

text \<open>
  The instance of the primitives for the vault: the cipher, random source and codec of
  \<open>toy_platform\<close>, a key that is the first 32 bytes of password and salt, hex for base64, and
  a serialisation that keeps the id of a conversation created at time 1000 with one hour
  of retention.
\<close>

definition toy_vault :: "nat vault_platform" where
  "toy_vault = platform.extend toy_platform
     (vault_platform.fields
        (\<lambda>password salt iterations. take 32 (password @ salt @ replicate 32 0))
        c_id
        (\<lambda>s. Some (createEmptyConvo 1000 s (Some 1)))
        bytesToHex
        (\<lambda>s. Some (hexToBytes s)))"


section \<open>Attestation: the verification level\<close>

lemma opt_chain_Some_prop: "opt_chain (Some d) (\<lambda>d. js_prop d k) = js_prop d k"
  by (cases d) (simp_all add: opt_chain_def)

lemma findNonce_iff_spec: "findNonceRecursive body nonce \<longleftrightarrow> spec_nonce_matched body nonce"
  unfolding spec_nonce_matched_def
proof (induction body)
  case (JArr xs)
  then show ?case by (auto simp: list_ex_iff)
next
  case (JObj kvs)
  have IH: "findNonceRecursive (snd kv) nonce
      \<longleftrightarrow> (\<exists>s \<in> set (json_strings (snd kv)). toLowerCase s = toLowerCase nonce)"
    if "kv \<in> set kvs" for kv
    using JObj[OF that, of "snd kv"] by (cases kv) simp
  show ?case by (auto simp: list_ex_iff IH)
qed simp_all

lemma startsWith_0x: "startsWith k ''0x'' \<longleftrightarrow> take 2 k = ''0x''"
  by (simp add: startsWith_def numeral_2_eq_2)

lemma take2_length: "take 2 k = [a, b] \<Longrightarrow> 2 \<le> length k"
  by (cases k; cases "tl k") auto

lemma keyLooksValid_iff_spec:
  "(isHex (strip0x k) \<and> (if startsWith k ''0x'' then int (length k) - 2 else int (length k)) \<in> {128, 130})
    \<longleftrightarrow> spec_format_valid k"
proof -
  define c where "c = (if take 2 k = ''0x'' then drop 2 k else k)"
  have strip: "strip0x k = c"
    by (simp only: strip0x_def startsWith_0x c_def)
  have len: "(if startsWith k ''0x'' then int (length k) - 2 else int (length k)) = int (length c)"
  proof (cases "take 2 k = ''0x''")
    case True
    then have "2 \<le> length k" by (rule take2_length)
    then have "int (length k) - 2 = int (length (drop 2 k))" by simp
    with True show ?thesis by (simp only: startsWith_0x c_def if_True refl)
  next
    case False
    then show ?thesis by (simp only: startsWith_0x c_def if_False refl)
  qed
  have spec: "spec_format_valid k \<longleftrightarrow>
      (length c = 128 \<or> length c = 130) \<and> (\<forall>x \<in> set c. isHexChar x)"
    by (simp only: spec_format_valid_def Let_def c_def)
  have "isHex c \<and> int (length c) \<in> {128, 130} \<longleftrightarrow>
      (length c = 128 \<or> length c = 130) \<and> (\<forall>x \<in> set c. isHexChar x)"
    unfolding isHex_def list_all_iff by auto
  then show ?thesis by (simp only: strip len spec)
qed


lemma fetchModelPublicKey_cases:
  "fetchModelPublicKey rnd now fetched =
     (case fetched of
        Inl e \<Rightarrow> Inl e
      | Inr res \<Rightarrow>
          if \<not> res_ok res then Inl (ErrorStatus ''Attestation request failed: '' (res_status res))
          else (case res_json res of
            None \<Rightarrow> Inl SyntaxError
          | Some data \<Rightarrow>
              if data = JNull then Inl TypeError
              else if \<not> truthy_opt (attested_key data)
                   then Inl (Error ''No model public key in attestation response'')
                   else Inr (attestationReport_of data (bytesToHex rnd) now (the (attested_key data)))))"
  by (simp add: fetchModelPublicKey_def attested_key_def Let_def split: sum.split option.split)

lemma fetchModelPublicKey_Inr:
  assumes "fetchModelPublicKey rnd now fetched = Inr r"
  shows "\<exists>res data. fetched = Inr res \<and> res_ok res \<and> res_json res = Some data \<and> data \<noteq> JNull
           \<and> truthy_opt (attested_key data)
           \<and> r = attestationReport_of data (bytesToHex rnd) now (the (attested_key data))"
  using assms unfolding fetchModelPublicKey_cases
  by (auto split: sum.splits option.splits if_splits)

lemma report_level:
  "ar_verificationLevel (attestationReport_of data nonce now key) =
     (if spec_format_valid (js_toString key)
      then (if spec_nonce_matched data nonce then LevelNonce else LevelFormat)
      else LevelNone)"
  unfolding attestationReport_of_def Let_def keyLooksValid_iff_spec findNonce_iff_spec
  by simp

lemma report_fields:
  "ar_signingPublicKey (attestationReport_of data nonce now key) = js_toString key"
  "ar_verified (attestationReport_of data nonce now key) =
     (ar_verificationLevel (attestationReport_of data nonce now key) = LevelNonce)"
  "ar_nonce (attestationReport_of data nonce now key) = nonce"
  "ar_nonceMatched (attestationReport_of data nonce now key) = findNonceRecursive data nonce"
  by (simp_all add: attestationReport_of_def Let_def)


text \<open>
  C4. Whenever the attestation check returns a report, its level is \<open>nonce\<close> exactly when
  the signing key is format valid and the request nonce is found in the body, \<open>format\<close>
  exactly when the key is format valid and the nonce is not found, and \<open>none\<close> exactly when
  the key is not format valid; \<open>verified\<close> is true exactly at level \<open>nonce\<close>. The signing
  key of the report is the text of the first model attestation's signing-key field.
\<close>

theorem C4_verification_level:
  assumes "fetchModelPublicKey rnd now fetched = Inr r"
  shows "\<exists>res data. fetched = Inr res \<and> res_json res = Some data
      \<and> ar_signingPublicKey r = js_toString (the (attested_key data))
      \<and> (ar_verificationLevel r = LevelNonce \<longleftrightarrow>
           spec_format_valid (ar_signingPublicKey r) \<and> spec_nonce_matched data (bytesToHex rnd))
      \<and> (ar_verificationLevel r = LevelFormat \<longleftrightarrow>
           spec_format_valid (ar_signingPublicKey r) \<and> \<not> spec_nonce_matched data (bytesToHex rnd))
      \<and> (ar_verificationLevel r = LevelNone \<longleftrightarrow> \<not> spec_format_valid (ar_signingPublicKey r))
      \<and> (ar_verified r \<longleftrightarrow> ar_verificationLevel r = LevelNonce)"
proof -
  from fetchModelPublicKey_Inr[OF assms] obtain res data where
    f: "fetched = Inr res" "res_json res = Some data"
    and r: "r = attestationReport_of data (bytesToHex rnd) now (the (attested_key data))"
    by blast
  have k: "ar_signingPublicKey r = js_toString (the (attested_key data))"
    and v: "ar_verified r \<longleftrightarrow> ar_verificationLevel r = LevelNonce"
    unfolding r by (simp_all only: report_fields)
  have lvl: "ar_verificationLevel r =
       (if spec_format_valid (ar_signingPublicKey r)
        then (if spec_nonce_matched data (bytesToHex rnd) then LevelNonce else LevelFormat)
        else LevelNone)"
    unfolding r by (simp only: report_level report_fields)
  from lvl have
    "ar_verificationLevel r = LevelNonce \<longleftrightarrow>
       spec_format_valid (ar_signingPublicKey r) \<and> spec_nonce_matched data (bytesToHex rnd)"
    "ar_verificationLevel r = LevelFormat \<longleftrightarrow>
       spec_format_valid (ar_signingPublicKey r) \<and> \<not> spec_nonce_matched data (bytesToHex rnd)"
    "ar_verificationLevel r = LevelNone \<longleftrightarrow> \<not> spec_format_valid (ar_signingPublicKey r)"
    by (simp_all split: if_splits)
  with f k v show ?thesis by blast
qed

theorem C4_verification_level_witness:
  "\<exists>r. fetchModelPublicKey (replicate 32 0) 7
         (Inr \<lparr>res_ok = True, res_status = 200, res_json = Some
            (JObj [(''model_attestations'',
                   JArr [JObj [(''signing_public_key'', JStr (''0x'' @ replicate 128 (CHR ''a'')))]]),
                 (''echo'', JArr [JNull, JStr (replicate 64 (CHR ''0''))])])\<rparr>) = Inr r
       \<and> ar_verificationLevel r = LevelNonce \<and> ar_verified r"
proof -
  let ?body = "JObj [(''model_attestations'',
                   JArr [JObj [(''signing_public_key'', JStr (''0x'' @ replicate 128 (CHR ''a'')))]]),
                 (''echo'', JArr [JNull, JStr (replicate 64 (CHR ''0''))])]"
  let ?res = "\<lparr>res_ok = True, res_status = 200, res_json = Some ?body\<rparr>"
  have key: "attested_key ?body = Some (JStr (''0x'' @ replicate 128 (CHR ''a'')))"
    by (simp add: attested_key_def opt_chain_def)
  have t: "truthy_opt (attested_key ?body)"
    unfolding key truthy_opt_def by simp
  have "\<exists>r. fetchModelPublicKey (replicate 32 0) 7 (Inr ?res) = Inr r"
    unfolding fetchModelPublicKey_cases using t by simp
  then obtain r where r: "fetchModelPublicKey (replicate 32 0) 7 (Inr ?res) = Inr r"
    by blast
  have fv: "spec_format_valid (''0x'' @ replicate 128 (CHR ''a''))"
    by code_simp
  have nm: "spec_nonce_matched ?body (bytesToHex (replicate 32 0))"
    by code_simp
  from C4_verification_level[OF r] obtain res data where
    d: "Inr ?res = (Inr res :: js_error + response)" "res_json res = Some data"
    and pk0: "ar_signingPublicKey r = js_toString (the (attested_key data))"
    and lvl: "ar_verificationLevel r = LevelNonce \<longleftrightarrow>
       spec_format_valid (ar_signingPublicKey r) \<and> spec_nonce_matched data (bytesToHex (replicate 32 0))"
    and v: "ar_verified r \<longleftrightarrow> ar_verificationLevel r = LevelNonce"
    by blast
  from d have data: "data = ?body" by auto
  from pk0 have pk: "ar_signingPublicKey r = ''0x'' @ replicate 128 (CHR ''a'')"
    unfolding data by (simp only: key option.sel js_toString.simps)
  from lvl v fv nm
  have "ar_verificationLevel r = LevelNonce \<and> ar_verified r" unfolding pk data by simp
  with r show ?thesis by blast
qed


text \<open>
  C10, as amended. A 2xx attestation response whose body is not JSON, is \<open>null\<close>, or has no
  truthy signing-key field in its first model attestation makes the check raise: no report
  is returned. A report of level \<open>none\<close> (not verified) is what the check returns when the
  signing-key field is there and its text is not format valid.
\<close>

theorem C10_malformed_body:
  assumes "res_ok res"
  shows "(res_json res = None \<longrightarrow> fetchModelPublicKey rnd now (Inr res) = Inl SyntaxError)
    \<and> (res_json res = Some JNull \<longrightarrow> fetchModelPublicKey rnd now (Inr res) = Inl TypeError)
    \<and> (res_json res = Some data \<and> data \<noteq> JNull \<and> \<not> truthy_opt (attested_key data) \<longrightarrow>
         fetchModelPublicKey rnd now (Inr res)
           = Inl (Error ''No model public key in attestation response''))
    \<and> (res_json res = Some data \<and> data \<noteq> JNull \<and> truthy_opt (attested_key data)
         \<and> \<not> spec_format_valid (js_toString (the (attested_key data))) \<longrightarrow>
         (\<exists>r. fetchModelPublicKey rnd now (Inr res) = Inr r
              \<and> ar_verificationLevel r = LevelNone \<and> \<not> ar_verified r))"
  using assms unfolding fetchModelPublicKey_cases
  by (simp add: report_level report_fields)

theorem C10_malformed_body_witness:
  "fetchModelPublicKey [] 7 (Inr \<lparr>res_ok = True, res_status = 200, res_json = None\<rparr>) = Inl SyntaxError
   \<and> fetchModelPublicKey [] 7 (Inr \<lparr>res_ok = True, res_status = 200, res_json = Some JNull\<rparr>)
       = Inl TypeError
   \<and> fetchModelPublicKey [] 7
        (Inr \<lparr>res_ok = True, res_status = 200, res_json = Some (JObj [(''model_attestations'', JArr [])])\<rparr>)
       = Inl (Error ''No model public key in attestation response'')
   \<and> (\<exists>r. fetchModelPublicKey [] 7
        (Inr \<lparr>res_ok = True, res_status = 200,
              res_json = Some (JObj [(''model_attestations'',
                 JArr [JObj [(''signing_public_key'', JStr ''not-a-key'')]])])\<rparr>) = Inr r
        \<and> ar_verificationLevel r = LevelNone \<and> \<not> ar_verified r)"
proof -
  let ?b3 = "JObj [(''model_attestations'', JArr [])]"
  let ?b4 = "JObj [(''model_attestations'', JArr [JObj [(''signing_public_key'', JStr ''not-a-key'')]])]"
  have k3: "\<not> truthy_opt (attested_key ?b3)"
    by (simp add: attested_key_def opt_chain_def truthy_opt_def)
  have k4: "attested_key ?b4 = Some (JStr ''not-a-key'')"
    by (simp add: attested_key_def opt_chain_def)
  have t4: "truthy_opt (attested_key ?b4)"
    unfolding k4 by (simp add: truthy_opt_def)
  have nv: "\<not> spec_format_valid (js_toString (the (attested_key ?b4)))"
    unfolding k4 by (simp add: spec_format_valid_def)
  show ?thesis
    using C10_malformed_body[where res = "\<lparr>res_ok = True, res_status = 200, res_json = None\<rparr>" and rnd = "[]" and now = 7]
      C10_malformed_body[where res = "\<lparr>res_ok = True, res_status = 200, res_json = Some JNull\<rparr>" and rnd = "[]" and now = 7]
      C10_malformed_body[where res = "\<lparr>res_ok = True, res_status = 200, res_json = Some ?b3\<rparr>" and data = ?b3 and rnd = "[]" and now = 7]
      C10_malformed_body[where res = "\<lparr>res_ok = True, res_status = 200, res_json = Some ?b4\<rparr>" and data = ?b4 and rnd = "[]" and now = 7]
      k3 t4 nv
    by simp
qed

text \<open>
  C10 as stated fails on a body that lacks the signing-key field: the check raises
  \<open>Error("No model public key in attestation response")\<close> and returns no report.
\<close>

theorem C10_missing_key_counterexample:
  "fetchModelPublicKey (replicate 32 0) 7
     (Inr \<lparr>res_ok = True, res_status = 200,
           res_json = Some (JObj [(''model_attestations'', JArr [JObj [(''signing_algo'', JStr ''ecdsa'')]])])\<rparr>)
   = Inl (Error ''No model public key in attestation response'')"
  by (simp add: fetchModelPublicKey_cases attested_key_def opt_chain_def truthy_opt_def)

section \<open>Response integrity: the signature text\<close>

lemma fetchChatSignature_cases:
  "fetchChatSignature (Inr res) =
     (if \<not> res_ok res then Inr None
      else case res_json res of
             None \<Rightarrow> Inl SyntaxError
           | Some data \<Rightarrow>
               if \<not> truthy_opt (js_prop data ''signature'') \<or> \<not> truthy_opt (js_prop data ''text'')
               then Inr None
               else Inr (Some \<lparr> sig_text = the (js_prop data ''text''),
                                 sig_signature = the (js_prop data ''signature''),
                                 sig_signingAddress = js_prop data ''signing_address'',
                                 sig_signingAlgo = js_prop data ''signing_algo'' \<rparr>))"
  by (simp add: fetchChatSignature_def opt_chain_Some_prop split: option.split)

lemma buildVerification_Inr:
  "buildVerification chatId rq rs fetched = Inr r \<longleftrightarrow>
     (\<exists>sg. fetchChatSignature fetched = Inr sg
        \<and> r = \<lparr> cv_chatId = chatId, cv_requestHash = rq, cv_responseHash = rs,
                 cv_signatureFetched = (sg \<noteq> None),
                 cv_signatureTextMatches =
                   (case sg of None \<Rightarrow> False | Some s \<Rightarrow> sig_text s = JStr (rq @ '':'' @ rs)),
                 cv_signature = sg \<rparr>)"
proof (cases "fetchChatSignature fetched")
  case (Inl e)
  then show ?thesis by (simp add: buildVerification_def)
next
  case (Inr sg)
  then show ?thesis by (cases sg) (auto simp: buildVerification_def Let_def)
qed

lemma the_truthy: "truthy_opt x \<Longrightarrow> the x = j \<longleftrightarrow> x = Some j"
  by (cases x) (simp_all add: truthy_opt_def)

lemma buildVerification_cases:
  "buildVerification chatId rq rs (Inr res) =
     (if \<not> res_ok res
      then Inr \<lparr> cv_chatId = chatId, cv_requestHash = rq, cv_responseHash = rs,
                 cv_signatureFetched = False, cv_signatureTextMatches = False,
                 cv_signature = None \<rparr>
      else case res_json res of
             None \<Rightarrow> Inl SyntaxError
           | Some data \<Rightarrow>
               if \<not> truthy_opt (js_prop data ''signature'') \<or> \<not> truthy_opt (js_prop data ''text'')
               then Inr \<lparr> cv_chatId = chatId, cv_requestHash = rq, cv_responseHash = rs,
                          cv_signatureFetched = False, cv_signatureTextMatches = False,
                          cv_signature = None \<rparr>
               else Inr \<lparr> cv_chatId = chatId, cv_requestHash = rq, cv_responseHash = rs,
                          cv_signatureFetched = True,
                          cv_signatureTextMatches =
                            (js_prop data ''text'' = Some (JStr (rq @ '':'' @ rs))),
                          cv_signature = Some \<lparr> sig_text = the (js_prop data ''text''),
                                 sig_signature = the (js_prop data ''signature''),
                                 sig_signingAddress = js_prop data ''signing_address'',
                                 sig_signingAlgo = js_prop data ''signing_algo'' \<rparr> \<rparr>)"
  by (simp add: buildVerification_def fetchChatSignature_cases Let_def the_truthy
      split: option.split)

lemma buildVerification_Inl: "buildVerification chatId rq rs (Inl e) = Inl e"
  by (simp add: buildVerification_def fetchChatSignature_def)

text \<open>
  C6. Whenever \<open>buildVerification\<close> returns, \<open>signatureTextMatches\<close> is true exactly when the
  response was 2xx and its JSON body has a truthy \<open>signature\<close> and, under \<open>text\<close>, the string
  \<open>requestHash + ":" + responseHash\<close>; \<open>signatureFetched\<close> is true exactly when the response was
  2xx and the body has a truthy \<open>signature\<close> and a truthy \<open>text\<close>. The result carries the
  signature record built from the body's four fields when one was fetched and none otherwise,
  \<open>signatureTextMatches\<close> is true exactly when that record's text is the expected string, and
  the three identifiers are the arguments. On a response that is not 2xx, or whose JSON body
  has no (truthy) \<open>signature\<close> or \<open>text\<close>, it does return, with \<open>signatureFetched\<close> and
  \<open>signatureTextMatches\<close> false and no signature.
\<close>

theorem C6_signature_text:
  "(buildVerification chatId rq rs fetched = Inr r \<longrightarrow>
      (cv_signatureTextMatches r \<longleftrightarrow>
         (\<exists>res data. fetched = Inr res \<and> res_ok res \<and> res_json res = Some data
            \<and> truthy_opt (js_prop data ''signature'')
            \<and> js_prop data ''text'' = Some (JStr (rq @ '':'' @ rs))))
      \<and> (cv_signatureFetched r \<longleftrightarrow>
         (\<exists>res data. fetched = Inr res \<and> res_ok res \<and> res_json res = Some data
            \<and> truthy_opt (js_prop data ''signature'') \<and> truthy_opt (js_prop data ''text'')))
      \<and> (cv_signatureTextMatches r \<longleftrightarrow>
         (\<exists>sg. cv_signature r = Some sg \<and> sig_text sg = JStr (rq @ '':'' @ rs)))
      \<and> (cv_signatureFetched r \<longleftrightarrow> cv_signature r \<noteq> None)
      \<and> (\<forall>res data. fetched = Inr res \<and> res_json res = Some data \<and> cv_signatureFetched r \<longrightarrow>
            cv_signature r = Some \<lparr> sig_text = the (js_prop data ''text''),
                                    sig_signature = the (js_prop data ''signature''),
                                    sig_signingAddress = js_prop data ''signing_address'',
                                    sig_signingAlgo = js_prop data ''signing_algo'' \<rparr>)
      \<and> cv_chatId r = chatId \<and> cv_requestHash r = rq \<and> cv_responseHash r = rs)
   \<and> (\<not> res_ok res \<or> (\<exists>data. res_json res = Some data \<and>
           (\<not> truthy_opt (js_prop data ''signature'') \<or> \<not> truthy_opt (js_prop data ''text''))) \<longrightarrow>
        buildVerification chatId rq rs (Inr res)
          = Inr \<lparr> cv_chatId = chatId, cv_requestHash = rq, cv_responseHash = rs,
                  cv_signatureFetched = False, cv_signatureTextMatches = False,
                  cv_signature = None \<rparr>)"
proof (rule conjI)
  have t: "truthy_opt (Some (JStr (rq @ '':'' @ rs)))"
    by (simp add: truthy_opt_def)
  show "buildVerification chatId rq rs fetched = Inr r \<longrightarrow>
      (cv_signatureTextMatches r \<longleftrightarrow>
         (\<exists>res data. fetched = Inr res \<and> res_ok res \<and> res_json res = Some data
            \<and> truthy_opt (js_prop data ''signature'')
            \<and> js_prop data ''text'' = Some (JStr (rq @ '':'' @ rs))))
      \<and> (cv_signatureFetched r \<longleftrightarrow>
         (\<exists>res data. fetched = Inr res \<and> res_ok res \<and> res_json res = Some data
            \<and> truthy_opt (js_prop data ''signature'') \<and> truthy_opt (js_prop data ''text'')))
      \<and> (cv_signatureTextMatches r \<longleftrightarrow>
         (\<exists>sg. cv_signature r = Some sg \<and> sig_text sg = JStr (rq @ '':'' @ rs)))
      \<and> (cv_signatureFetched r \<longleftrightarrow> cv_signature r \<noteq> None)
      \<and> (\<forall>res data. fetched = Inr res \<and> res_json res = Some data \<and> cv_signatureFetched r \<longrightarrow>
            cv_signature r = Some \<lparr> sig_text = the (js_prop data ''text''),
                                    sig_signature = the (js_prop data ''signature''),
                                    sig_signingAddress = js_prop data ''signing_address'',
                                    sig_signingAlgo = js_prop data ''signing_algo'' \<rparr>)
      \<and> cv_chatId r = chatId \<and> cv_requestHash r = rq \<and> cv_responseHash r = rs"
  proof
    assume bv: "buildVerification chatId rq rs fetched = Inr r"
    then obtain res where f: "fetched = Inr res"
      by (cases fetched) (simp_all add: buildVerification_Inl)
    from bv obtain sg where fs: "fetchChatSignature fetched = Inr sg"
      and r: "r = \<lparr> cv_chatId = chatId, cv_requestHash = rq, cv_responseHash = rs,
                 cv_signatureFetched = (sg \<noteq> None),
                 cv_signatureTextMatches =
                   (case sg of None \<Rightarrow> False | Some s \<Rightarrow> sig_text s = JStr (rq @ '':'' @ rs)),
                 cv_signature = sg \<rparr>"
      unfolding buildVerification_Inr by blast
    have s1: "cv_signatureTextMatches r \<longleftrightarrow>
         (\<exists>sg. cv_signature r = Some sg \<and> sig_text sg = JStr (rq @ '':'' @ rs))"
      unfolding r by (cases sg) simp_all
    have s2: "cv_signatureFetched r \<longleftrightarrow> cv_signature r \<noteq> None"
      unfolding r by simp
    have s4: "cv_chatId r = chatId \<and> cv_requestHash r = rq \<and> cv_responseHash r = rs"
      unfolding r by simp
    show "(cv_signatureTextMatches r \<longleftrightarrow>
         (\<exists>res data. fetched = Inr res \<and> res_ok res \<and> res_json res = Some data
            \<and> truthy_opt (js_prop data ''signature'')
            \<and> js_prop data ''text'' = Some (JStr (rq @ '':'' @ rs))))
      \<and> (cv_signatureFetched r \<longleftrightarrow>
         (\<exists>res data. fetched = Inr res \<and> res_ok res \<and> res_json res = Some data
            \<and> truthy_opt (js_prop data ''signature'') \<and> truthy_opt (js_prop data ''text'')))
      \<and> (cv_signatureTextMatches r \<longleftrightarrow>
         (\<exists>sg. cv_signature r = Some sg \<and> sig_text sg = JStr (rq @ '':'' @ rs)))
      \<and> (cv_signatureFetched r \<longleftrightarrow> cv_signature r \<noteq> None)
      \<and> (\<forall>res data. fetched = Inr res \<and> res_json res = Some data \<and> cv_signatureFetched r \<longrightarrow>
            cv_signature r = Some \<lparr> sig_text = the (js_prop data ''text''),
                                    sig_signature = the (js_prop data ''signature''),
                                    sig_signingAddress = js_prop data ''signing_address'',
                                    sig_signingAlgo = js_prop data ''signing_algo'' \<rparr>)
      \<and> cv_chatId r = chatId \<and> cv_requestHash r = rq \<and> cv_responseHash r = rs"
    proof (cases "res_ok res")
      case False
      with bv f have "r = \<lparr> cv_chatId = chatId, cv_requestHash = rq, cv_responseHash = rs,
                 cv_signatureFetched = False, cv_signatureTextMatches = False,
                 cv_signature = None \<rparr>"
        by (simp add: buildVerification_cases)
      with False f show ?thesis by simp
    next
      case ok: True
      with bv f obtain data where d: "res_json res = Some data"
        by (cases "res_json res") (simp_all add: buildVerification_cases)
      show ?thesis
      proof (cases "truthy_opt (js_prop data ''signature'') \<and> truthy_opt (js_prop data ''text'')")
        case False
        with bv f ok d have "r = \<lparr> cv_chatId = chatId, cv_requestHash = rq, cv_responseHash = rs,
                 cv_signatureFetched = False, cv_signatureTextMatches = False,
                 cv_signature = None \<rparr>"
          by (simp add: buildVerification_cases)
        with False f d t show ?thesis by auto
      next
        case True
        with bv f ok d have "r = \<lparr> cv_chatId = chatId, cv_requestHash = rq, cv_responseHash = rs,
                          cv_signatureFetched = True,
                          cv_signatureTextMatches =
                            (js_prop data ''text'' = Some (JStr (rq @ '':'' @ rs))),
                          cv_signature = Some \<lparr> sig_text = the (js_prop data ''text''),
                                 sig_signature = the (js_prop data ''signature''),
                                 sig_signingAddress = js_prop data ''signing_address'',
                                 sig_signingAlgo = js_prop data ''signing_algo'' \<rparr> \<rparr>"
          by (simp add: buildVerification_cases)
        with True f ok d the_truthy[of "js_prop data ''text''"] show ?thesis by auto
      qed
    qed
  qed
next
  show "\<not> res_ok res \<or> (\<exists>data. res_json res = Some data \<and>
           (\<not> truthy_opt (js_prop data ''signature'') \<or> \<not> truthy_opt (js_prop data ''text''))) \<longrightarrow>
        buildVerification chatId rq rs (Inr res)
          = Inr \<lparr> cv_chatId = chatId, cv_requestHash = rq, cv_responseHash = rs,
                  cv_signatureFetched = False, cv_signatureTextMatches = False,
                  cv_signature = None \<rparr>"
    by (auto simp: buildVerification_cases)
qed

theorem C6_signature_text_witness:
  "(\<exists>r. buildVerification ''chat-1'' ''aaa'' ''bbb''
         (Inr \<lparr>res_ok = True, res_status = 200,
               res_json = Some (JObj [(''text'', JStr ''aaa:bbb''), (''signature'', JStr ''0x1c'')])\<rparr>)
        = Inr r \<and> cv_signatureFetched r \<and> cv_signatureTextMatches r
        \<and> cv_signature r = Some \<lparr> sig_text = JStr ''aaa:bbb'', sig_signature = JStr ''0x1c'',
              sig_signingAddress = None, sig_signingAlgo = None \<rparr>)
   \<and> (\<exists>r. buildVerification ''chat-1'' ''aaa'' ''bbb''
         (Inr \<lparr>res_ok = True, res_status = 200,
               res_json = Some (JObj [(''text'', JStr ''aaa:bbc''), (''signature'', JStr ''0x1c'')])\<rparr>)
        = Inr r \<and> cv_signatureFetched r \<and> \<not> cv_signatureTextMatches r)
   \<and> buildVerification ''chat-1'' ''aaa'' ''bbb''
         (Inr \<lparr>res_ok = False, res_status = 404, res_json = None\<rparr>)
       = Inr \<lparr> cv_chatId = ''chat-1'', cv_requestHash = ''aaa'', cv_responseHash = ''bbb'',
               cv_signatureFetched = False, cv_signatureTextMatches = False,
               cv_signature = None \<rparr>"
proof -
  let ?d1 = "JObj [(''text'', JStr ''aaa:bbb''), (''signature'', JStr ''0x1c'')]"
  let ?d2 = "JObj [(''text'', JStr ''aaa:bbc''), (''signature'', JStr ''0x1c'')]"
  let ?ok = "\<lparr>res_ok = True, res_status = 200, res_json = Some ?d1\<rparr>"
  let ?ok2 = "\<lparr>res_ok = True, res_status = 200, res_json = Some ?d2\<rparr>"
  obtain r where r: "buildVerification ''chat-1'' ''aaa'' ''bbb'' (Inr ?ok) = Inr r"
    by (simp add: buildVerification_cases truthy_opt_def)
  obtain r2 where r2: "buildVerification ''chat-1'' ''aaa'' ''bbb'' (Inr ?ok2) = Inr r2"
    by (simp add: buildVerification_cases truthy_opt_def)
  have p1: "js_prop ?d1 ''signature'' = Some (JStr ''0x1c'')" "js_prop ?d1 ''text'' = Some (JStr ''aaa:bbb'')"
    "js_prop ?d1 ''signing_address'' = None" "js_prop ?d1 ''signing_algo'' = None"
    by simp_all
  have p2: "js_prop ?d2 ''signature'' = Some (JStr ''0x1c'')" "js_prop ?d2 ''text'' = Some (JStr ''aaa:bbc'')"
    by simp_all
  note c1 = C6_signature_text[where chatId = "''chat-1''" and rq = "''aaa''" and rs = "''bbb''"
        and fetched = "Inr ?ok" and r = r and res = ?ok, THEN conjunct1, THEN mp, OF r]
  note c2 = C6_signature_text[where chatId = "''chat-1''" and rq = "''aaa''" and rs = "''bbb''"
        and fetched = "Inr ?ok2" and r = r2 and res = ?ok2, THEN conjunct1, THEN mp, OF r2]
  have f1: "cv_signatureFetched r"
    using c1[THEN conjunct2, THEN conjunct1] p1 by (simp add: truthy_opt_def)
  have m1: "cv_signatureTextMatches r"
    using c1[THEN conjunct1] p1 by (simp add: truthy_opt_def)
  have g1: "cv_signature r = Some \<lparr> sig_text = JStr ''aaa:bbb'', sig_signature = JStr ''0x1c'',
              sig_signingAddress = None, sig_signingAlgo = None \<rparr>"
    using c1[THEN conjunct2, THEN conjunct2, THEN conjunct2, THEN conjunct2, THEN conjunct1,
        THEN spec, THEN spec, of ?ok ?d1] f1 p1 by simp
  have f2: "cv_signatureFetched r2"
    using c2[THEN conjunct2, THEN conjunct1] p2 by (simp add: truthy_opt_def)
  have m2: "\<not> cv_signatureTextMatches r2"
    using c2[THEN conjunct1] p2 by simp
  have third: "buildVerification ''chat-1'' ''aaa'' ''bbb''
         (Inr \<lparr>res_ok = False, res_status = 404, res_json = None\<rparr>)
       = Inr \<lparr> cv_chatId = ''chat-1'', cv_requestHash = ''aaa'', cv_responseHash = ''bbb'',
               cv_signatureFetched = False, cv_signatureTextMatches = False,
               cv_signature = None \<rparr>"
    using C6_signature_text[where chatId = "''chat-1''" and rq = "''aaa''" and rs = "''bbb''"
        and res = "\<lparr>res_ok = False, res_status = 404, res_json = None\<rparr>"]
    by simp
  from r f1 m1 g1 r2 f2 m2 third show ?thesis by blast
qed



section \<open>Hex encoding\<close>

lemma of_char_hexDigit:
  "n < 16 \<Longrightarrow> (of_char (hexDigit n) :: nat) = (if n < 10 then 48 + n else 87 + n)"
  by (simp add: hexDigit_def)

lemma digit_val_hexDigit: "n < 16 \<Longrightarrow> digit_val (hexDigit n) = Some n"
  by (simp add: digit_val_def of_char_hexDigit Let_def)

lemma isHexChar_hexDigit: "n < 16 \<Longrightarrow> isHexChar (hexDigit n)"
  by (simp add: isHexChar_def digit_val_hexDigit)

lemma not_ws_hexDigit: "n < 16 \<Longrightarrow> \<not> isWhiteSpace (hexDigit n)"
  by (auto simp: isWhiteSpace_def of_char_hexDigit split: if_splits)

lemma hexDigit_neq:
  assumes "n < 16"
  shows "hexDigit n \<noteq> CHR ''-''" "hexDigit n \<noteq> CHR ''+''" "hexDigit n \<noteq> CHR ''x''" "hexDigit n \<noteq> CHR ''X''"
proof -
  have "(of_char (hexDigit n) :: nat) \<notin> {45, 43, 120, 88}"
    using assms by (auto simp: of_char_hexDigit split: if_splits)
  then show "hexDigit n \<noteq> CHR ''-''" "hexDigit n \<noteq> CHR ''+''" "hexDigit n \<noteq> CHR ''x''" "hexDigit n \<noteq> CHR ''X''"
    by auto
qed

lemma parseInt16_pair:
  assumes "a < 16" "b < 16"
  shows "parseInt16 [hexDigit a, hexDigit b] = Some (int (16 * a + b))"
  using assms
  by (simp add: parseInt16_def Let_def not_ws_hexDigit hexDigit_neq startsWith_def
      isHexChar_hexDigit hexValue_def digit_val_hexDigit)

lemma toUint8_byteToHex: "toUint8 (parseInt16 (byteToHex b)) = b"
proof -
  have "unat b < 2 ^ 8"
    using unsigned_less[of b] by simp
  then have lt: "unat b div 16 < 16" "unat b mod 16 < 16"
    by (simp_all add: less_mult_imp_div_less)
  have "16 * (unat b div 16) + unat b mod 16 = unat b" by simp
  then show ?thesis
    unfolding byteToHex_def parseInt16_pair[OF lt] toUint8_def by simp
qed

lemma hexPairs_bytesToHex: "hexPairs (bytesToHex bs) = bs"
proof (induction bs)
  case Nil
  show ?case by (simp add: bytesToHex_def)
next
  case (Cons b bs)
  have "bytesToHex (b # bs) = hexDigit (unat b div 16) # hexDigit (unat b mod 16) # bytesToHex bs"
    by (simp add: bytesToHex_def byteToHex_def)
  then show ?case
    using Cons toUint8_byteToHex[of b] by (simp add: byteToHex_def)
qed

lemma strip0x_bytesToHex: "strip0x (bytesToHex bs) = bytesToHex bs"
proof (cases bs)
  case Nil
  then show ?thesis by (simp add: strip0x_def startsWith_def bytesToHex_def)
next
  case (Cons b bs')
  have "unat b mod 16 < 16" by simp
  from hexDigit_neq(3)[OF this] show ?thesis
    by (simp add: strip0x_def startsWith_def bytesToHex_def byteToHex_def Cons)
qed

lemma hexToBytes_bytesToHex: "hexToBytes (bytesToHex bs) = bs"
  by (simp add: hexToBytes_def strip0x_bytesToHex hexPairs_bytesToHex)

lemma length_bytesToHex: "length (bytesToHex bs) = 2 * length bs"
  by (induction bs) (simp_all add: bytesToHex_def byteToHex_def)

lemma normalizePubKey_bytesToHex:
  "normalizePubKey (bytesToHex bs) = (if length bs = 64 then 0x04 # bs else bs)"
  by (simp add: normalizePubKey_def strip0x_bytesToHex hexToBytes_bytesToHex Let_def)


section \<open>Message cipher: blob layout and round trip\<close>

lemma encrypt_blob:
  assumes ss: "getSharedSecret W (privateKey keys) (normalizePubKey modelPubKeyHex) = Some z"
    and hk: "hkdf_length W"
  shows "encryptMessageWithClientKeys W plaintext modelPubKeyHex keys rng =
     Inr (bytesToHex (normalizePubKey (publicKeyHex keys) @ fst (getRandomValues W 12 rng)
            @ aesGcmEncrypt W (hkdf_sha256 W (take 32 (drop 1 z)) (textEncode W ''ecdsa_encryption'') 32)
                (fst (getRandomValues W 12 rng)) (textEncode W plaintext)),
          snd (getRandomValues W 12 rng))"
proof -
  have "importKey (hkdf_sha256 W (take 32 (drop 1 z)) (textEncode W ''ecdsa_encryption'') 32)
      = Inr (hkdf_sha256 W (take 32 (drop 1 z)) (textEncode W ''ecdsa_encryption'') 32)"
    using hk by (simp add: importKey_def hkdf_length_def)
  then show ?thesis
    by (simp add: encryptMessageWithClientKeys_def ss Let_def split_beta)
qed

lemma decrypt_parts:
  assumes "hexToBytes h = pub @ nonce @ ct" "length pub = 65" "length nonce = 12"
  shows "decryptResponse W h sk =
     (case getSharedSecret W sk pub of
        None \<Rightarrow> Inl LibraryError
      | Some zf \<Rightarrow>
          (case importKey (hkdf_sha256 W (take 32 (drop 1 zf)) (textEncode W ''ecdsa_encryption'') 32) of
             Inl e \<Rightarrow> Inl e
           | Inr k \<Rightarrow>
               (case aesGcmDecrypt W k nonce ct of
                  None \<Rightarrow> Inl OperationError
                | Some d \<Rightarrow> Inr (textDecode W d))))"
proof -
  have s1: "take 65 (pub @ nonce @ ct) = pub"
    and s2: "take 12 (drop 65 (pub @ nonce @ ct)) = nonce"
    and s3: "drop 77 (pub @ nonce @ ct) = ct"
    using assms(2,3) by simp_all
  show ?thesis
    unfolding decryptResponse_def Let_def assms(1) s1 s2 s3 ..
qed

text \<open>
  C9. Let the client public key have 65 bytes, the library accept the remote key, the
  derived key have the 32 bytes asked for, the random source return the 12 bytes asked
  for, and the cipher append a 16-byte tag. Then \<open>encryptMessageWithClientKeys\<close> returns the
  hex encoding of exactly: the client public key, then the 12 bytes drawn from the random
  source, then the encryption of the encoded plaintext under the derived key and those 12
  bytes. The three slices that \<open>decryptResponse\<close> takes of the decoded blob (65 bytes, 12
  bytes, the rest) are these three parts, and it decrypts with them. The blob has
  \<open>2 * (65 + 12 + n + 16)\<close> characters for a plaintext of \<open>n\<close> bytes, 196 for 5 bytes.
\<close>

theorem C9_blob_layout:
  assumes vs: "valid_secret W sk"
    and ss: "getSharedSecret W sk (normalizePubKey modelPubKeyHex) = Some z"
    and hk: "hkdf_length W" and rl: "random_length W" and tl: "gcm_tag_length W"
  shows
    "let pub = getPublicKey W sk;
         nonce = fst (getRandomValues W 12 rng);
         key = hkdf_sha256 W (take 32 (drop 1 z)) (textEncode W ''ecdsa_encryption'') 32;
         ct = aesGcmEncrypt W key nonce (textEncode W plaintext);
         blob = bytesToHex (pub @ nonce @ ct)
     in encryptMessageWithClientKeys W plaintext modelPubKeyHex (keypair_of W sk) rng
          = Inr (blob, snd (getRandomValues W 12 rng))
      \<and> length pub = 65 \<and> length nonce = 12
      \<and> length ct = length (textEncode W plaintext) + 16
      \<and> take 65 (hexToBytes blob) = pub
      \<and> take 12 (drop 65 (hexToBytes blob)) = nonce
      \<and> drop 77 (hexToBytes blob) = ct
      \<and> decryptResponse W blob sk' =
           (case getSharedSecret W sk' pub of
              None \<Rightarrow> Inl LibraryError
            | Some zf \<Rightarrow>
               (case importKey (hkdf_sha256 W (take 32 (drop 1 zf)) (textEncode W ''ecdsa_encryption'') 32) of
                  Inl e \<Rightarrow> Inl e
                | Inr k \<Rightarrow>
                    (case aesGcmDecrypt W k nonce ct of
                       None \<Rightarrow> Inl OperationError
                     | Some d \<Rightarrow> Inr (textDecode W d))))
      \<and> length blob = 2 * (65 + 12 + length (textEncode W plaintext) + 16)
      \<and> (length (textEncode W plaintext) = 5 \<longrightarrow> length blob = 196)"
proof -
  define pub where "pub = getPublicKey W sk"
  define nonce where "nonce = fst (getRandomValues W 12 rng)"
  define key where "key = hkdf_sha256 W (take 32 (drop 1 z)) (textEncode W ''ecdsa_encryption'') 32"
  define ct where "ct = aesGcmEncrypt W key nonce (textEncode W plaintext)"
  define blob where "blob = bytesToHex (pub @ nonce @ ct)"
  have lp: "length pub = 65" using vs by (simp add: valid_secret_def pub_def)
  have ln: "length nonce = 12" using rl by (simp add: random_length_def nonce_def)
  have lc: "length ct = length (textEncode W plaintext) + 16"
    using tl by (simp add: gcm_tag_length_def ct_def)
  have np: "normalizePubKey (publicKeyHex (keypair_of W sk)) = pub"
    using lp by (simp add: keypair_of_def normalizePubKey_bytesToHex pub_def)
  have ss': "getSharedSecret W (privateKey (keypair_of W sk)) (normalizePubKey modelPubKeyHex) = Some z"
    using ss by (simp add: keypair_of_def)
  have enc: "encryptMessageWithClientKeys W plaintext modelPubKeyHex (keypair_of W sk) rng
      = Inr (blob, snd (getRandomValues W 12 rng))"
    unfolding encrypt_blob[OF ss' hk] np blob_def ct_def key_def nonce_def ..
  have hb: "hexToBytes blob = pub @ nonce @ ct"
    by (simp add: blob_def hexToBytes_bytesToHex)
  have s1: "take 65 (hexToBytes blob) = pub" using lp by (simp add: hb)
  have s2: "take 12 (drop 65 (hexToBytes blob)) = nonce" using lp ln by (simp add: hb)
  have s3: "drop 77 (hexToBytes blob) = ct" using lp ln by (simp add: hb)
  have len: "length blob = 2 * (65 + 12 + length (textEncode W plaintext) + 16)"
    using lp ln lc by (simp add: blob_def length_bytesToHex)
  have five: "length (textEncode W plaintext) = 5 \<longrightarrow> length blob = 196"
    using len by simp
  note dec = decrypt_parts[OF hb lp ln, of W sk']
  have "encryptMessageWithClientKeys W plaintext modelPubKeyHex (keypair_of W sk) rng
          = Inr (blob, snd (getRandomValues W 12 rng))
      \<and> length pub = 65 \<and> length nonce = 12
      \<and> length ct = length (textEncode W plaintext) + 16
      \<and> take 65 (hexToBytes blob) = pub
      \<and> take 12 (drop 65 (hexToBytes blob)) = nonce
      \<and> drop 77 (hexToBytes blob) = ct
      \<and> decryptResponse W blob sk' =
           (case getSharedSecret W sk' pub of
              None \<Rightarrow> Inl LibraryError
            | Some zf \<Rightarrow>
               (case importKey (hkdf_sha256 W (take 32 (drop 1 zf)) (textEncode W ''ecdsa_encryption'') 32) of
                  Inl e \<Rightarrow> Inl e
                | Inr k \<Rightarrow>
                    (case aesGcmDecrypt W k nonce ct of
                       None \<Rightarrow> Inl OperationError
                     | Some d \<Rightarrow> Inr (textDecode W d))))
      \<and> length blob = 2 * (65 + 12 + length (textEncode W plaintext) + 16)
      \<and> (length (textEncode W plaintext) = 5 \<longrightarrow> length blob = 196)"
    using enc lp ln lc s1 s2 s3 dec len five by blast
  then show ?thesis
    unfolding Let_def blob_def ct_def key_def nonce_def pub_def .
qed


lemma toy_fields:
  "getPublicKey toy_platform sk = 0x04 # pad64 sk"
  "getSharedSecret toy_platform sk pub =
     (if length pub = 65 then Some (0x04 # map2 (XOR) (pad64 sk) (tl pub)) else None)"
  "hkdf_sha256 toy_platform ikm info n = take n (ikm @ info @ replicate n 0)"
  "getRandomValues toy_platform n rng = (replicate n (of_nat rng + 1), rng + 1)"
  "randomSecretKey toy_platform rng = (replicate 32 (of_nat rng + 1), rng + 1)"
  "aesGcmEncrypt toy_platform key nonce data = map (\<lambda>b. b + 1) data @ toy_tag key nonce"
  "aesGcmDecrypt toy_platform key nonce data =
     (if 16 \<le> length data \<and> drop (length data - 16) data = toy_tag key nonce
      then Some (map (\<lambda>b. b - 1) (take (length data - 16) data)) else None)"
  "textEncode toy_platform s = map (\<lambda>c. of_nat (of_char c)) s"
  "textDecode toy_platform bs = map (\<lambda>b. char_of (unat b)) bs"
  by (simp_all add: toy_platform_def)

lemma length_pad64: "length (pad64 sk) = 64"
  by (simp add: pad64_def)

lemma length_toy_tag: "length (toy_tag key nonce) = 16"
  by (simp add: toy_tag_def)

lemma toy_hkdf_length: "hkdf_length toy_platform"
  by (auto simp: hkdf_length_def toy_fields min_def)

lemma toy_random_length: "random_length toy_platform"
  by (simp add: random_length_def toy_fields)

lemma toy_gcm_tag_length: "gcm_tag_length toy_platform"
  by (simp add: gcm_tag_length_def toy_fields length_toy_tag)

lemma toy_aead_correct: "aead_correct toy_platform"
  by (simp add: aead_correct_def toy_fields length_toy_tag comp_def)

lemma toy_valid_secret: "valid_secret toy_platform sk"
  by (simp add: valid_secret_def toy_fields length_pad64)

lemma map2_xor_commute: "map2 (XOR) xs ys = map2 (XOR) ys (xs :: byte list)"
proof (induction xs arbitrary: ys)
  case Nil
  show ?case by simp
next
  case (Cons x xs)
  then show ?case by (cases ys) (simp_all add: xor.commute)
qed

lemma toy_ecdh_agree: "ecdh_agree toy_platform a b"
  by (simp add: ecdh_agree_def toy_fields length_pad64 map2_xor_commute[of "pad64 a"])

lemma toy_text_roundtrip: "textDecode toy_platform (textEncode toy_platform s) = s"
proof -
  have "char_of (unat (of_nat (of_char c) :: byte)) = c" for c :: char
    by (simp add: unat_of_nat take_bit_eq_mod)
  then show ?thesis by (simp add: toy_fields comp_def)
qed

theorem C9_blob_layout_witness:
  "let z = 0x04 # map2 (XOR) (pad64 (replicate 32 1)) (pad64 (replicate 32 2));
       key = hkdf_sha256 toy_platform (take 32 (drop 1 z)) (textEncode toy_platform ''ecdsa_encryption'') 32;
       nonce = fst (getRandomValues toy_platform 12 0);
       blob = bytesToHex (getPublicKey toy_platform (replicate 32 1) @ nonce
                @ aesGcmEncrypt toy_platform key nonce (textEncode toy_platform ''hello''))
   in encryptMessageWithClientKeys toy_platform ''hello''
        (bytesToHex (getPublicKey toy_platform (replicate 32 2)))
        (keypair_of toy_platform (replicate 32 1)) 0 = Inr (blob, snd (getRandomValues toy_platform 12 0))
      \<and> length blob = 196
      \<and> take 65 (hexToBytes blob) = getPublicKey toy_platform (replicate 32 1)
      \<and> take 12 (drop 65 (hexToBytes blob)) = nonce
      \<and> drop 77 (hexToBytes blob) = aesGcmEncrypt toy_platform key nonce (textEncode toy_platform ''hello'')"
proof -
  let ?z = "0x04 # map2 (XOR) (pad64 (replicate 32 1)) (pad64 (replicate 32 2))"
  have five: "length (textEncode toy_platform ''hello'') = 5"
    by (simp add: toy_fields)
  have "normalizePubKey (bytesToHex (getPublicKey toy_platform (replicate 32 2)))
      = getPublicKey toy_platform (replicate 32 2)"
    by (simp add: normalizePubKey_bytesToHex toy_fields length_pad64)
  then have ss: "getSharedSecret toy_platform (replicate 32 1)
      (normalizePubKey (bytesToHex (getPublicKey toy_platform (replicate 32 2)))) = Some ?z"
    by (simp add: toy_fields length_pad64)
  from C9_blob_layout[OF toy_valid_secret ss toy_hkdf_length toy_random_length toy_gcm_tag_length,
      where plaintext = "''hello''" and rng = 0 and sk' = "[]"] five
  show ?thesis
    unfolding Let_def by blast
qed


lemma round_trip_decoded:
  assumes va: "valid_secret W a" and vb: "valid_secret W b"
    and agree: "ecdh_agree W a b"
    and hk: "hkdf_length W" and rl: "random_length W" and ac: "aead_correct W"
  shows "case encryptMessageWithClientKeys W P (publicKeyHex (keypair_of W b)) (keypair_of W a) rng of
           Inl e \<Rightarrow> False
         | Inr (blob, rng') \<Rightarrow>
             decryptResponse W blob (privateKey (keypair_of W b))
               = Inr (textDecode W (textEncode W P))"
proof -
  from agree have ne: "getSharedSecret W a (getPublicKey W b) \<noteq> None"
    and eq: "getSharedSecret W a (getPublicKey W b) = getSharedSecret W b (getPublicKey W a)"
    unfolding ecdh_agree_def by blast+
  from ne obtain z where zab: "getSharedSecret W a (getPublicKey W b) = Some z"
    by blast
  with eq have zba: "getSharedSecret W b (getPublicKey W a) = Some z"
    by simp
  define key where "key = hkdf_sha256 W (take 32 (drop 1 z)) (textEncode W ''ecdsa_encryption'') 32"
  define nonce where "nonce = fst (getRandomValues W 12 rng)"
  define ct where "ct = aesGcmEncrypt W key nonce (textEncode W P)"
  define blob where "blob = bytesToHex (getPublicKey W a @ nonce @ ct)"
  have la: "length (getPublicKey W a) = 65" and lb: "length (getPublicKey W b) = 65"
    using va vb by (simp_all add: valid_secret_def)
  have ln: "length nonce = 12"
    using rl by (simp add: random_length_def nonce_def)
  have na: "normalizePubKey (publicKeyHex (keypair_of W a)) = getPublicKey W a"
    and nb: "normalizePubKey (publicKeyHex (keypair_of W b)) = getPublicKey W b"
    using la lb by (simp_all add: keypair_of_def normalizePubKey_bytesToHex)
  have ss: "getSharedSecret W (privateKey (keypair_of W a))
      (normalizePubKey (publicKeyHex (keypair_of W b))) = Some z"
    unfolding nb using zab by (simp add: keypair_of_def)
  have enc: "encryptMessageWithClientKeys W P (publicKeyHex (keypair_of W b)) (keypair_of W a) rng
      = Inr (blob, snd (getRandomValues W 12 rng))"
    unfolding encrypt_blob[OF ss hk] na blob_def ct_def key_def nonce_def ..
  have hb: "hexToBytes blob = getPublicKey W a @ nonce @ ct"
    by (simp add: blob_def hexToBytes_bytesToHex)
  have ik: "importKey key = Inr key"
    using hk by (simp add: importKey_def hkdf_length_def key_def)
  have dk: "aesGcmDecrypt W key nonce ct = Some (textEncode W P)"
    using ac by (simp add: aead_correct_def ct_def)
  have "decryptResponse W blob b = Inr (textDecode W (textEncode W P))"
    unfolding decrypt_parts[OF hb la ln] zba
    using ik dk by (simp add: key_def)
  then have "decryptResponse W blob (privateKey (keypair_of W b))
      = Inr (textDecode W (textEncode W P))"
    by (simp add: keypair_of_def)
  then show ?thesis
    unfolding enc by simp
qed

text \<open>
  C1, as amended. Let A and B be key pairs with 65-byte public keys whose secrets agree on
  the shared point, the derived key have the 32 bytes asked for, the random source return
  the 12 bytes asked for, and the cipher decrypt what it encrypted. Then for every
  plaintext \<open>P\<close> that the text codec carries unchanged, encrypting \<open>P\<close> against B's public
  key with A's keys succeeds, and decrypting the blob with B's private key returns \<open>P\<close>.
\<close>

theorem C1_round_trip:
  assumes va: "valid_secret W a" and vb: "valid_secret W b"
    and agree: "ecdh_agree W a b"
    and hk: "hkdf_length W" and rl: "random_length W" and ac: "aead_correct W"
    and codec: "textDecode W (textEncode W P) = P"
  shows "\<exists>blob rng'.
      encryptMessageWithClientKeys W P (publicKeyHex (keypair_of W b)) (keypair_of W a) rng
        = Inr (blob, rng')
      \<and> decryptResponse W blob (privateKey (keypair_of W b)) = Inr P"
proof (cases "encryptMessageWithClientKeys W P (publicKeyHex (keypair_of W b)) (keypair_of W a) rng")
  case (Inl e)
  with round_trip_decoded[OF va vb agree hk rl ac, of P rng] show ?thesis
    by simp
next
  case (Inr res)
  with round_trip_decoded[OF va vb agree hk rl ac, of P rng] codec show ?thesis
    by (cases res) simp
qed

theorem C1_round_trip_witness:
  "\<exists>blob rng'.
      encryptMessageWithClientKeys toy_platform ''hello''
        (publicKeyHex (keypair_of toy_platform (replicate 32 2)))
        (keypair_of toy_platform (replicate 32 1)) 0 = Inr (blob, rng')
      \<and> decryptResponse toy_platform blob (privateKey (keypair_of toy_platform (replicate 32 2)))
          = Inr ''hello''"
  by (rule C1_round_trip[OF toy_valid_secret toy_valid_secret toy_ecdh_agree toy_hkdf_length
        toy_random_length toy_aead_correct toy_text_roundtrip])

lemma bom_fields:
  "getPublicKey bom_platform = getPublicKey toy_platform"
  "getSharedSecret bom_platform = getSharedSecret toy_platform"
  "hkdf_sha256 bom_platform = hkdf_sha256 toy_platform"
  "getRandomValues bom_platform = getRandomValues toy_platform"
  "aesGcmEncrypt bom_platform = aesGcmEncrypt toy_platform"
  "aesGcmDecrypt bom_platform = aesGcmDecrypt toy_platform"
  "textEncode bom_platform = textEncode toy_platform"
  "textDecode bom_platform bs =
     map (\<lambda>b. char_of (unat b)) (if take 3 bs = [0xEF, 0xBB, 0xBF] then drop 3 bs else bs)"
  by (simp_all add: bom_platform_def)

lemma bom_valid_secret: "valid_secret bom_platform sk"
  using toy_valid_secret[of sk] by (simp add: valid_secret_def bom_fields)

lemma bom_ecdh_agree: "ecdh_agree bom_platform a b"
  by (simp add: ecdh_agree_def bom_fields toy_fields length_pad64 map2_xor_commute[of "pad64 a"])

lemma bom_hkdf_length: "hkdf_length bom_platform"
  using toy_hkdf_length by (simp add: hkdf_length_def bom_fields)

lemma bom_random_length: "random_length bom_platform"
  using toy_random_length by (simp add: random_length_def bom_fields)

lemma bom_aead_correct: "aead_correct bom_platform"
  using toy_aead_correct by (simp add: aead_correct_def bom_fields)

text \<open>
  C1 as stated fails for a plaintext that starts with a byte order mark: with a codec that
  drops it on decoding, as \<open>new TextDecoder()\<close> does, the text \<open>U+FEFF h\<close> is encrypted and
  decrypted without error and comes back as \<open>h\<close>.
\<close>

theorem C1_byte_order_mark_counterexample:
  "(case encryptMessageWithClientKeys bom_platform [CHR 0xEF, CHR 0xBB, CHR 0xBF, CHR ''h'']
          (publicKeyHex (keypair_of bom_platform (replicate 32 2)))
          (keypair_of bom_platform (replicate 32 1)) 0 of
      Inl e \<Rightarrow> False
    | Inr (blob, rng') \<Rightarrow>
        decryptResponse bom_platform blob (privateKey (keypair_of bom_platform (replicate 32 2)))
          = Inr ''h'')
   \<and> ''h'' \<noteq> [CHR 0xEF, CHR 0xBB, CHR 0xBF, CHR ''h'']"
proof -
  have h: "char_of (104 :: nat) = CHR ''h''"
    by code_simp
  have td: "textDecode bom_platform (textEncode bom_platform [CHR 0xEF, CHR 0xBB, CHR 0xBF, CHR ''h''])
      = ''h''"
    by (simp add: bom_fields toy_fields h)
  have ne: "''h'' \<noteq> [CHR 0xEF, CHR 0xBB, CHR 0xBF, CHR ''h'']"
    by simp
  from round_trip_decoded[OF bom_valid_secret bom_valid_secret bom_ecdh_agree bom_hkdf_length
      bom_random_length bom_aead_correct,
      where a = "replicate 32 1" and b = "replicate 32 2"
        and P = "[CHR 0xEF, CHR 0xBB, CHR 0xBF, CHR ''h'']" and rng = 0]
  have "case encryptMessageWithClientKeys bom_platform [CHR 0xEF, CHR 0xBB, CHR 0xBF, CHR ''h'']
          (publicKeyHex (keypair_of bom_platform (replicate 32 2)))
          (keypair_of bom_platform (replicate 32 1)) 0 of
      Inl e \<Rightarrow> False
    | Inr (blob, rng') \<Rightarrow>
        decryptResponse bom_platform blob (privateKey (keypair_of bom_platform (replicate 32 2)))
          = Inr ''h''"
    unfolding td .
  then show ?thesis using ne by (rule conjI)
qed


section \<open>The streamed exchange: one key pair\<close>

lemma encrypt_Inr_blob:
  assumes "encryptMessageWithClientKeys W plaintext modelPubKeyHex keys rng = Inr (blob, rng')"
  shows "\<exists>ct. blob = bytesToHex (normalizePubKey (publicKeyHex keys)
                    @ fst (getRandomValues W 12 rng) @ ct)
            \<and> rng' = snd (getRandomValues W 12 rng)"
  using assms
  by (auto simp: encryptMessageWithClientKeys_def Let_def split_beta
      split: option.splits sum.splits)

lemma encryptMessages_embed:
  assumes "encryptMessages W modelPubKeyHex keys ms rng = Inr (ms', rng')"
    and "length (normalizePubKey (publicKeyHex keys)) = 65"
  shows "length ms' = length ms
    \<and> (\<forall>m \<in> set ms'. take 65 (hexToBytes (cm_content m)) = normalizePubKey (publicKeyHex keys))"
  using assms(1)
proof (induction ms arbitrary: rng ms' rng')
  case Nil
  then show ?case by simp
next
  case (Cons m ms)
  from Cons.prems obtain blob rng1 rest where
    e: "encryptMessageWithClientKeys W (cm_content m) modelPubKeyHex keys rng = Inr (blob, rng1)"
    and r: "encryptMessages W modelPubKeyHex keys ms rng1 = Inr (rest, rng')"
    and ms': "ms' = m\<lparr>cm_content := blob\<rparr> # rest"
    by (auto split: sum.splits)
  from encrypt_Inr_blob[OF e] obtain ct where
    "blob = bytesToHex (normalizePubKey (publicKeyHex keys) @ fst (getRandomValues W 12 rng) @ ct)"
    by blast
  then have "take 65 (hexToBytes blob) = normalizePubKey (publicKeyHex keys)"
    using assms(2) by (simp add: hexToBytes_bytesToHex)
  with Cons.IH[OF r] show ?case by (simp add: ms')
qed

lemma streamChat_prepare_Inl:
  "streamChat_prepare W sp message history True (Inl e) rng = Inl e"
  by (simp add: streamChat_prepare_def)

lemma streamChat_prepare_E2EE:
  assumes "streamChat_prepare W sp message history True (Inr att) rng = Inr (req, rng')"
  shows "rq_clientKeys req = Some (fst (generateClientKeys W rng))"
    and "encryptMessages W (ar_signingPublicKey att) (fst (generateClientKeys W rng))
         ([\<lparr> cm_role = RoleSystem, cm_content = sp \<rparr>]
            @ map (\<lambda>h. \<lparr> cm_role = cm_role h, cm_content = cm_content h \<rparr>) history
            @ [\<lparr> cm_role = RoleUser, cm_content = message \<rparr>])
         (snd (generateClientKeys W rng)) = Inr (rq_messages req, rng')"
  using assms
  by (auto simp: streamChat_prepare_def Let_def split_beta simp del: encryptMessages.simps
      split: sum.splits)

text \<open>
  C5, as amended. An exchange with end-to-end encryption generates one client key pair,
  from the random source as it stands when the exchange starts, and every message of the
  exchange (system prompt, history, user message) is encrypted under that pair: the
  public key embedded in each of the blobs is the public key of that one pair.
\<close>

theorem C5_one_keypair_per_exchange:
  assumes "streamChat_prepare W sp message history True attestation rng = Inr (req, rng')"
    and "valid_secret W (fst (randomSecretKey W rng))"
  shows "rq_clientKeys req = Some (fst (generateClientKeys W rng))
    \<and> privateKey (fst (generateClientKeys W rng)) = fst (randomSecretKey W rng)
    \<and> length (rq_messages req) = length history + 2
    \<and> (\<forall>m \<in> set (rq_messages req).
          take 65 (hexToBytes (cm_content m)) = getPublicKey W (fst (randomSecretKey W rng)))"
proof -
  let ?keys = "fst (generateClientKeys W rng)"
  have keys: "?keys = keypair_of W (fst (randomSecretKey W rng))"
    by (simp add: generateClientKeys_def keypair_of_def split_beta Let_def)
  from assms(2) have np: "normalizePubKey (publicKeyHex ?keys) = getPublicKey W (fst (randomSecretKey W rng))"
    by (simp add: keys keypair_of_def normalizePubKey_bytesToHex valid_secret_def)
  with assms(2) have l: "length (normalizePubKey (publicKeyHex ?keys)) = 65"
    by (simp add: valid_secret_def)
  from assms(1) obtain att where att: "attestation = Inr att"
    by (cases attestation) (simp_all add: streamChat_prepare_Inl)
  note ck = streamChat_prepare_E2EE(1)[OF assms(1)[unfolded att]]
    and em = streamChat_prepare_E2EE(2)[OF assms(1)[unfolded att]]
  from encryptMessages_embed[OF em l] ck keys show ?thesis
    unfolding np by (simp add: keypair_of_def)
qed


lemma toy_encrypt_succeeds:
  assumes "length (normalizePubKey mk) = 65"
  shows "\<exists>blob. encryptMessageWithClientKeys toy_platform p mk keys rng = Inr (blob, Suc rng)"
proof -
  from assms have "\<exists>z. getSharedSecret toy_platform (privateKey keys) (normalizePubKey mk) = Some z"
    by (simp add: toy_fields)
  then obtain z where "getSharedSecret toy_platform (privateKey keys) (normalizePubKey mk) = Some z" ..
  from encrypt_blob[OF this toy_hkdf_length, of p rng] show ?thesis
    by (simp add: toy_fields(4))
qed

lemma toy_encryptMessages_succeeds:
  assumes "length (normalizePubKey mk) = 65"
  shows "\<exists>ms'. encryptMessages toy_platform mk keys ms rng = Inr (ms', rng + length ms)"
proof (induction ms arbitrary: rng)
  case Nil
  show ?case by simp
next
  case (Cons m ms)
  from toy_encrypt_succeeds[OF assms, of "cm_content m" keys rng] obtain blob where
    "encryptMessageWithClientKeys toy_platform (cm_content m) mk keys rng = Inr (blob, Suc rng)" ..
  moreover from Cons.IH[of "Suc rng"] obtain ms' where
    "encryptMessages toy_platform mk keys ms (Suc rng) = Inr (ms', Suc rng + length ms)" ..
  ultimately show ?case by simp
qed

lemma toy_prepare_succeeds:
  assumes "length (normalizePubKey (ar_signingPublicKey att)) = 65"
  shows "\<exists>req rng'. streamChat_prepare toy_platform sp message history True (Inr att) rng
           = Inr (req, rng')"
proof -
  let ?ms = "[\<lparr> cm_role = RoleSystem, cm_content = sp \<rparr>]
            @ map (\<lambda>h. \<lparr> cm_role = cm_role h, cm_content = cm_content h \<rparr>) history
            @ [\<lparr> cm_role = RoleUser, cm_content = message \<rparr>]"
  from toy_encryptMessages_succeeds[OF assms,
      of "fst (generateClientKeys toy_platform rng)" ?ms "snd (generateClientKeys toy_platform rng)"]
  obtain ms' where "encryptMessages toy_platform (ar_signingPublicKey att)
      (fst (generateClientKeys toy_platform rng)) ?ms (snd (generateClientKeys toy_platform rng))
      = Inr (ms', snd (generateClientKeys toy_platform rng) + length ?ms)" ..
  then show ?thesis
    by (simp add: streamChat_prepare_def Let_def split_beta del: encryptMessages.simps)
qed

lemma toy_model_key:
  "length (normalizePubKey (ar_signingPublicKey
     (attestationReport_of d n t (JStr (bytesToHex (getPublicKey toy_platform sk)))))) = 65"
  by (simp add: report_fields normalizePubKey_bytesToHex toy_fields length_pad64)

theorem C5_one_keypair_per_exchange_witness:
  "\<exists>req rng'.
     streamChat_prepare toy_platform ''s'' ''m'' [] True
       (Inr (attestationReport_of JNull [] 0
              (JStr (bytesToHex (getPublicKey toy_platform (replicate 32 9)))))) 0 = Inr (req, rng')
     \<and> rq_clientKeys req = Some (fst (generateClientKeys toy_platform 0))
     \<and> length (rq_messages req) = 2
     \<and> (\<forall>m \<in> set (rq_messages req).
           take 65 (hexToBytes (cm_content m)) = getPublicKey toy_platform (fst (randomSecretKey toy_platform 0)))"
proof -
  let ?att = "attestationReport_of JNull [] 0
      (JStr (bytesToHex (getPublicKey toy_platform (replicate 32 9))))"
  have "\<exists>req rng'. streamChat_prepare toy_platform ''s'' ''m'' [] True (Inr ?att) 0 = Inr (req, rng')"
    by (rule toy_prepare_succeeds[OF toy_model_key])
  then obtain req rng' where
    p: "streamChat_prepare toy_platform ''s'' ''m'' [] True (Inr ?att) 0 = Inr (req, rng')"
    by blast
  from C5_one_keypair_per_exchange[OF p toy_valid_secret] p show ?thesis
    by auto
qed

text \<open>
  C5 as stated fails on every exchange: the system prompt and the user message of one
  exchange are encrypted under the same client key pair, and the public keys embedded in
  their two blobs are equal.
\<close>

theorem C5_shared_keypair_counterexample:
  "(case streamChat_prepare toy_platform ''s'' ''m'' [] True
          (Inr (attestationReport_of JNull [] 0
                 (JStr (bytesToHex (getPublicKey toy_platform (replicate 32 9)))))) 0 of
      Inl e \<Rightarrow> False
    | Inr (req, rng') \<Rightarrow>
        length (rq_messages req) = 2
        \<and> take 65 (hexToBytes (cm_content (rq_messages req ! 0)))
            = take 65 (hexToBytes (cm_content (rq_messages req ! 1))))"
proof -
  let ?att = "attestationReport_of JNull [] 0
      (JStr (bytesToHex (getPublicKey toy_platform (replicate 32 9))))"
  let ?keys = "fst (generateClientKeys toy_platform 0)"
  have "\<exists>req rng'. streamChat_prepare toy_platform ''s'' ''m'' [] True (Inr ?att) 0 = Inr (req, rng')"
    by (rule toy_prepare_succeeds[OF toy_model_key])
  then obtain req rng' where
    p: "streamChat_prepare toy_platform ''s'' ''m'' [] True (Inr ?att) 0 = Inr (req, rng')"
    by blast
  note em = streamChat_prepare_E2EE(2)[OF p]
  have l: "length (normalizePubKey (publicKeyHex ?keys)) = 65"
    by (simp add: generateClientKeys_def split_beta Let_def normalizePubKey_bytesToHex
        toy_fields length_pad64)
  from encryptMessages_embed[OF em l]
  have len: "length (rq_messages req) = 2"
    and all: "\<forall>m \<in> set (rq_messages req).
      take 65 (hexToBytes (cm_content m)) = normalizePubKey (publicKeyHex ?keys)"
    by simp_all
  from len have "rq_messages req ! 0 \<in> set (rq_messages req)" "rq_messages req ! 1 \<in> set (rq_messages req)"
    by simp_all
  with all have "take 65 (hexToBytes (cm_content (rq_messages req ! 0)))
      = take 65 (hexToBytes (cm_content (rq_messages req ! 1)))"
    by simp
  with len show ?thesis
    unfolding p by simp
qed


section \<open>The streamed exchange: chunks that do not decrypt\<close>

lemma split_nl_nonempty: "split_nl s \<noteq> []"
  by (induction s) (auto split: list.splits)

lemma split_nl_append:
  "split_nl (a @ b) = butlast (split_nl a) @ split_nl (last (split_nl a) @ b)"
proof (induction a)
  case Nil
  show ?case by simp
next
  case (Cons c cs)
  obtain p ps where ps: "split_nl cs = p # ps"
    using split_nl_nonempty[of cs] by (cases "split_nl cs") auto
  show ?case
  proof (cases "c = CHR 0x0A")
    case True
    with Cons ps show ?thesis by simp
  next
    case False
    show ?thesis
    proof (cases ps)
      case Nil
      with Cons ps False show ?thesis by simp
    next
      case (Cons q qs)
      with Cons.IH ps False show ?thesis by simp
    qed
  qed
qed

lemma line_delta_chain:
  "opt_chain (opt_chain (opt_chain (Some parsed) (\<lambda>p. js_prop p ''choices'')) js_index0)
       (\<lambda>choice. js_prop choice ''delta'')
   = opt_chain (opt_chain (js_prop parsed ''choices'') js_index0) (\<lambda>choice. js_prop choice ''delta'')"
  by (simp add: opt_chain_Some_prop)

lemma opt_chain_None: "opt_chain None f = None"
  by (simp add: opt_chain_def)

lemma truthy_opt_simps: "truthy_opt None = False" "truthy_opt (Some j) = truthy j"
  by (simp_all add: truthy_opt_def)

lemma handleLine_fullContent:
  "fullContent (handleLine W parse True (Some keys) oc line st) =
     fullContent st @ (case line_delta parse line of
                         None \<Rightarrow> [] | Some d \<Rightarrow> js_toString (delivered_for W keys d))"
  by (auto simp: handleLine_def line_delta_def Let_def delivered_for_def opt_chain_Some_prop
      opt_chain_None truthy_opt_simps split: option.splits sum.splits)

lemma handleLine_onChunk:
  "onChunk_calls (handleLine W parse True (Some keys) oc line st) =
     onChunk_calls st @ (case line_delta parse line of
                           None \<Rightarrow> [] | Some d \<Rightarrow> [delivered_for W keys d])"
  by (auto simp: handleLine_def line_delta_def Let_def delivered_for_def opt_chain_Some_prop
      opt_chain_None truthy_opt_simps split: option.splits sum.splits)

lemma handleLines_fullContent:
  "fullContent (fold (handleLine W parse True (Some keys) oc) lines st) =
     fullContent st @ concat (map (\<lambda>d. js_toString (delivered_for W keys d)) (deltas parse lines))"
  by (induction lines arbitrary: st)
     (simp_all add: deltas_def handleLine_fullContent split: option.splits)

lemma handleLines_onChunk:
  "onChunk_calls (fold (handleLine W parse True (Some keys) oc) lines st) =
     onChunk_calls st @ map (delivered_for W keys) (deltas parse lines)"
  by (induction lines arbitrary: st)
     (simp_all add: deltas_def handleLine_onChunk split: option.splits)

lemma split_nl_last_no_nl: "CHR 0x0A \<notin> set (last (split_nl s))"
proof (induction s)
  case Nil
  show ?case by simp
next
  case (Cons c cs)
  obtain p ps where ps: "split_nl cs = p # ps"
    using split_nl_nonempty[of cs] by (cases "split_nl cs") auto
  with Cons show ?case by (cases ps) auto
qed

lemma split_nl_no_nl: "CHR 0x0A \<notin> set s \<Longrightarrow> split_nl s = [s]"
  by (induction s) auto

lemma handleChunks_lines:
  assumes "CHR 0x0A \<notin> set (rs_buffer rs)"
  shows "fold (handleChunk W parse e k oc) chunks rs =
     \<lparr> rs_stream = fold (handleLine W parse e k oc)
                       (butlast (split_nl (rs_buffer rs @ concat chunks))) (rs_stream rs),
       rs_buffer = last (split_nl (rs_buffer rs @ concat chunks)),
       rs_rawResponse = rs_rawResponse rs @ concat chunks \<rparr>"
  using assms
proof (induction chunks arbitrary: rs)
  case Nil
  then show ?case by (simp add: split_nl_no_nl)
next
  case (Cons c cs)
  let ?rs' = "handleChunk W parse e k oc c rs"
  have buf: "rs_buffer ?rs' = last (split_nl (rs_buffer rs @ c))"
    and str: "rs_stream ?rs' = fold (handleLine W parse e k oc)
                 (butlast (split_nl (rs_buffer rs @ c))) (rs_stream rs)"
    and raw: "rs_rawResponse ?rs' = rs_rawResponse rs @ c"
    by (simp_all add: handleChunk_def Let_def)
  have inv: "CHR 0x0A \<notin> set (rs_buffer ?rs')"
    unfolding buf by (rule split_nl_last_no_nl)
  have sp: "split_nl (rs_buffer rs @ concat (c # cs)) =
      butlast (split_nl (rs_buffer rs @ c)) @ split_nl (rs_buffer ?rs' @ concat cs)"
    unfolding buf using split_nl_append[of "rs_buffer rs @ c" "concat cs"] by simp
  have bl: "butlast (split_nl (rs_buffer rs @ concat (c # cs))) =
      butlast (split_nl (rs_buffer rs @ c)) @ butlast (split_nl (rs_buffer ?rs' @ concat cs))"
    and la: "last (split_nl (rs_buffer rs @ concat (c # cs))) = last (split_nl (rs_buffer ?rs' @ concat cs))"
    unfolding sp by (simp_all add: butlast_append split_nl_nonempty)
  have "fold (handleChunk W parse e k oc) (c # cs) rs = fold (handleChunk W parse e k oc) cs ?rs'"
    by simp
  also note Cons.IH[OF inv]
  finally show ?case
    unfolding bl la str raw by simp
qed

lemma streamChat_read_lines:
  "rs_stream (streamChat_read W parse e k oc chunks) =
     fold (handleLine W parse e k oc) (butlast (split_nl (concat chunks)))
       \<lparr> fullContent = [], latestChatId = JStr [], onChunk_calls = [], onChatId_calls = [] \<rparr>"
  unfolding streamChat_read_def by (subst handleChunks_lines) simp_all

text \<open>
  C7. In an exchange with end-to-end encryption, let \<open>ds\<close> be the deltas of the complete
  lines of the response stream, in order. The loop calls \<open>onChunk\<close> once for each of them and
  appends each to \<open>fullContent\<close>: the decrypted text where \<open>decryptResponse\<close> succeeds, the
  delta itself where it fails. So a delta on which decryption fails is delivered and
  appended as it is, and the deltas after it are handled all the same.
\<close>

theorem C7_decrypt_failure_fallback:
  "onChunk_calls (rs_stream (streamChat_read W parse True (Some keys) oc chunks))
     = map (delivered_for W keys) (deltas parse (butlast (split_nl (concat chunks))))
   \<and> fullContent (rs_stream (streamChat_read W parse True (Some keys) oc chunks))
     = concat (map (\<lambda>d. js_toString (delivered_for W keys d))
         (deltas parse (butlast (split_nl (concat chunks)))))
   \<and> (\<forall>d e. decryptDelta W d (privateKey keys) = Inl e \<longrightarrow> delivered_for W keys d = d)
   \<and> (\<forall>i < length (deltas parse (butlast (split_nl (concat chunks)))).
        (\<exists>e. decryptDelta W (deltas parse (butlast (split_nl (concat chunks))) ! i) (privateKey keys) = Inl e)
        \<longrightarrow> onChunk_calls (rs_stream (streamChat_read W parse True (Some keys) oc chunks)) ! i
              = deltas parse (butlast (split_nl (concat chunks))) ! i)"
proof -
  let ?ds = "deltas parse (butlast (split_nl (concat chunks)))"
  let ?st = "rs_stream (streamChat_read W parse True (Some keys) oc chunks)"
  have calls: "onChunk_calls ?st = map (delivered_for W keys) ?ds"
    by (simp add: streamChat_read_lines handleLines_onChunk)
  have content: "fullContent ?st = concat (map (\<lambda>d. js_toString (delivered_for W keys d)) ?ds)"
    by (simp add: streamChat_read_lines handleLines_fullContent)
  have raw: "\<forall>d e. decryptDelta W d (privateKey keys) = Inl e \<longrightarrow> delivered_for W keys d = d"
    by (simp add: delivered_for_def)
  have at: "\<forall>i < length ?ds. (\<exists>e. decryptDelta W (?ds ! i) (privateKey keys) = Inl e)
        \<longrightarrow> onChunk_calls ?st ! i = ?ds ! i"
    unfolding calls using raw by auto
  from calls content raw at show ?thesis by blast
qed


theorem C7_decrypt_failure_fallback_witness:
  "onChunk_calls (rs_stream (streamChat_read toy_platform toy_parse True
       (Some (keypair_of toy_platform (replicate 32 1))) True
       [''data: {\"choices\":[{\"delta\":{\"content\":\"hello\"}}]}'' @ [CHR 0x0A] @ ''data: {\"cho'',
        ''ices\":[{\"delta\":{\"content\":\" world\"}}]}'' @ [CHR 0x0A] @ ''data: [DONE]'' @ [CHR 0x0A]]))
     = [JStr ''hello'', JStr '' world'']
   \<and> fullContent (rs_stream (streamChat_read toy_platform toy_parse True
       (Some (keypair_of toy_platform (replicate 32 1))) True
       [''data: {\"choices\":[{\"delta\":{\"content\":\"hello\"}}]}'' @ [CHR 0x0A] @ ''data: {\"cho'',
        ''ices\":[{\"delta\":{\"content\":\" world\"}}]}'' @ [CHR 0x0A] @ ''data: [DONE]'' @ [CHR 0x0A]]))
     = ''hello world''"
proof -
  let ?chunks = "[''data: {\"choices\":[{\"delta\":{\"content\":\"hello\"}}]}'' @ [CHR 0x0A] @ ''data: {\"cho'',
        ''ices\":[{\"delta\":{\"content\":\" world\"}}]}'' @ [CHR 0x0A] @ ''data: [DONE]'' @ [CHR 0x0A]]"
  let ?keys = "keypair_of toy_platform (replicate 32 1)"
  have ds: "deltas toy_parse (butlast (split_nl (concat ?chunks))) = [JStr ''hello'', JStr '' world'']"
    by code_simp
  have f1: "decryptDelta toy_platform (JStr ''hello'') (privateKey ?keys) = Inl LibraryError"
    by code_simp
  have f2: "decryptDelta toy_platform (JStr '' world'') (privateKey ?keys) = Inl LibraryError"
    by code_simp
  from C7_decrypt_failure_fallback[of toy_platform toy_parse ?keys True ?chunks]
  have calls: "onChunk_calls (rs_stream (streamChat_read toy_platform toy_parse True (Some ?keys) True ?chunks))
       = map (delivered_for toy_platform ?keys) [JStr ''hello'', JStr '' world'']"
    and content: "fullContent (rs_stream (streamChat_read toy_platform toy_parse True (Some ?keys) True ?chunks))
       = concat (map (\<lambda>d. js_toString (delivered_for toy_platform ?keys d)) [JStr ''hello'', JStr '' world''])"
    and raw: "\<forall>d e. decryptDelta toy_platform d (privateKey ?keys) = Inl e \<longrightarrow> delivered_for toy_platform ?keys d = d"
    unfolding ds by blast+
  from raw f1 f2 have "delivered_for toy_platform ?keys (JStr ''hello'') = JStr ''hello''"
    "delivered_for toy_platform ?keys (JStr '' world'') = JStr '' world''"
    by blast+
  with calls content show ?thesis by simp
qed


section \<open>Encrypted vault: round trip and wrong passphrase\<close>

lemma promise_all_map_Inr: "promise_all (map Inr xs) = Inr xs"
  by (induction xs) simp_all

lemma promise_all_Inr_D: "promise_all ps = Inr xs \<Longrightarrow> ps = map Inr xs"
proof (induction ps arbitrary: xs rule: promise_all.induct)
  case 1
  then show ?case by simp
next
  case (2 e ps)
  then show ?case by simp
next
  case (3 x ps)
  then show ?case by (cases "promise_all ps") auto
qed

lemma promise_all_Inr: "promise_all ps = Inr xs \<longleftrightarrow> ps = map Inr xs"
  using promise_all_Inr_D promise_all_map_Inr by blast

lemma promise_all_Inl:
  assumes "Inl e \<in> set ps"
  shows "\<exists>e'. promise_all ps = Inl e'"
proof (cases "promise_all ps")
  case (Inl e')
  then show ?thesis by blast
next
  case (Inr xs)
  then have "ps = map Inr xs" by (simp add: promise_all_Inr)
  with assms show ?thesis by auto
qed

lemma promise_all_map:
  assumes "\<forall>x \<in> set xs. \<exists>c. f x = Inr c"
  shows "\<exists>cs. promise_all (map f xs) = Inr cs \<and> map f xs = map Inr cs"
proof -
  have "\<exists>cs. map f xs = map Inr cs"
    using assms
  proof (induction xs)
    case Nil
    show ?case by simp
  next
    case (Cons x xs)
    then obtain c cs where "f x = Inr c" "map f xs = map Inr cs" by auto
    then have "map f (x # xs) = map Inr (c # cs)" by simp
    then show ?case by blast
  qed
  then obtain cs where "map f xs = map Inr cs" ..
  then show ?thesis by (auto simp: promise_all_Inr)
qed

lemma set_store_put:
  "set (store_put r st) = insert r {x \<in> set st. stored_id x \<noteq> stored_id r}"
  by (auto simp: store_put_def set_insort_key)

lemma decrypt_encrypt:
  assumes ac: "aead_correct V" and b64: "base64_correct V" and js: "json_roundtrip V R"
  shows "decryptConversation V (fst (encryptConversation V R p rng)) p = Inr R"
proof -
  have b: "base64ToBytes V (bytesToBase64 V bs) = Inr bs" for bs
    using b64 by (simp add: base64ToBytes_def bytesToBase64_def base64_correct_def)
  have d: "aesGcmDecrypt V k n (aesGcmEncrypt V k n x) = Some x" for k n x
    using ac by (simp add: aead_correct_def)
  from js have t: "textDecode V (textEncode V (JSON_stringify V R)) = JSON_stringify V R"
    and j: "JSON_parse V (JSON_stringify V R) = Some R"
    by (simp_all add: json_roundtrip_def)
  show ?thesis
    by (simp add: decryptConversation_def encryptConversation_def split_beta Let_def b d t j)
qed

lemma saveConversation_Inr:
  assumes "saveConversation V R p (st, rng) = Inr (st', rng')"
  shows "p \<noteq> []" and "st' = store_put (Encrypted (fst (encryptConversation V R p rng))) st"
    and "rec_id (fst (encryptConversation V R p rng)) = c_id R"
  using assms
  by (auto simp: saveConversation_def encryptConversation_def split_beta Let_def split: if_splits)

lemma sorted_desc:
  "sorted_wrt (\<lambda>a b. c_createdAt b \<le> c_createdAt a) (sort_key (\<lambda>a. - c_createdAt a) cs)"
proof -
  have "sorted (map (\<lambda>a. - c_createdAt a) (sort_key (\<lambda>a. - c_createdAt a) cs))"
    by (rule sorted_sort_key)
  then show ?thesis by (simp add: sorted_map)
qed

lemma saveConversation_nonempty:
  "p \<noteq> [] \<Longrightarrow>
   saveConversation V R p (st, rng) =
     Inr (store_put (Encrypted (fst (encryptConversation V R p rng))) st,
          snd (encryptConversation V R p rng))"
  by (simp add: saveConversation_def split_beta)

text \<open>
  C2, as amended. Let \<open>p\<close> be a non-empty passphrase, every other record of the vault be a
  legacy record or decrypt under \<open>p\<close>, the cipher decrypt what it encrypted, base64 decode
  what it encoded, and JSON and the text codec carry \<open>R\<close> unchanged. Then saving \<open>R\<close> with \<open>p\<close>
  succeeds, and loading all records with \<open>p\<close> afterwards succeeds: the result contains \<open>R\<close>
  itself, has one conversation per stored record, and is in descending order of creation
  time.
\<close>

theorem C2_vault_round_trip:
  assumes ne: "p \<noteq> []"
    and others: "\<forall>x \<in> set st. stored_id x \<noteq> c_id R \<longrightarrow> (\<exists>c. loadItem V p x = Inr c)"
    and ac: "aead_correct V" and b64: "base64_correct V" and js: "json_roundtrip V R"
  shows "\<exists>st' rng' convs.
        saveConversation V R p (st, rng) = Inr (st', rng')
      \<and> getAllConversations V p st' = Inr convs
      \<and> R \<in> set convs
      \<and> length convs = length st'
      \<and> sorted_wrt (\<lambda>a b. c_createdAt b \<le> c_createdAt a) convs"
proof -
  let ?rec = "fst (encryptConversation V R p rng)"
  let ?st' = "store_put (Encrypted ?rec) st"
  note save = saveConversation_nonempty[OF ne, of V R st rng]
  note s = saveConversation_Inr[OF save]
  have own: "loadItem V p (Encrypted ?rec) = Inr R"
    by (simp add: decrypt_encrypt[OF ac b64 js])
  have all: "\<forall>x \<in> set ?st'. \<exists>c. loadItem V p x = Inr c"
    using others own by (auto simp: s(3) set_store_put)
  from promise_all_map[OF all] obtain cs where
    pa: "promise_all (map (loadItem V p) ?st') = Inr cs"
    and m: "map (loadItem V p) ?st' = map Inr cs"
    by blast
  have "Encrypted ?rec \<in> set ?st'"
    by (simp add: set_store_put)
  then have "Inr R \<in> set (map (loadItem V p) ?st')"
    using own by force
  then have mem: "R \<in> set cs"
    unfolding m by auto
  from m have len: "length cs = length ?st'"
    by (metis length_map)
  have res: "getAllConversations V p ?st' = Inr (sort_key (\<lambda>a. - c_createdAt a) cs)"
    using ne pa by (simp add: getAllConversations_def store_getAll_def)
  from mem len sorted_desc[of cs] save res show ?thesis
    by simp
qed


lemma toy_vault_fields:
  "getRandomValues toy_vault n rng = (replicate n (of_nat rng + 1), rng + 1)"
  "aesGcmEncrypt toy_vault key nonce data = map (\<lambda>b. b + 1) data @ toy_tag key nonce"
  "aesGcmDecrypt toy_vault key nonce data =
     (if 16 \<le> length data \<and> drop (length data - 16) data = toy_tag key nonce
      then Some (map (\<lambda>b. b - 1) (take (length data - 16) data)) else None)"
  "textEncode toy_vault s = map (\<lambda>c. of_nat (of_char c)) s"
  "textDecode toy_vault bs = map (\<lambda>b. char_of (unat b)) bs"
  "pbkdf2_sha256 toy_vault password salt iterations = take 32 (password @ salt @ replicate 32 0)"
  "JSON_stringify toy_vault c = c_id c"
  "JSON_parse toy_vault s = Some (createEmptyConvo 1000 s (Some 1))"
  "btoa toy_vault bs = bytesToHex bs"
  "atob toy_vault s = Some (hexToBytes s)"
  by (simp_all add: toy_vault_def toy_platform_def platform.extend_def vault_platform.fields_def)

lemma toy_vault_aead_correct: "aead_correct toy_vault"
  by (simp add: aead_correct_def toy_vault_fields length_toy_tag comp_def)

lemma toy_vault_base64_correct: "base64_correct toy_vault"
  by (simp add: base64_correct_def toy_vault_fields hexToBytes_bytesToHex)

lemma toy_vault_json_roundtrip: "json_roundtrip toy_vault (createEmptyConvo 1000 i (Some 1))"
proof -
  have "char_of (unat (of_nat (of_char c) :: byte)) = c" for c :: char
    by (simp add: unat_of_nat take_bit_eq_mod)
  then show ?thesis
    by (simp add: json_roundtrip_def toy_vault_fields comp_def createEmptyConvo_def)
qed


lemma decrypt_wrong_key:
  assumes wk: "wrong_key_rejected V p w" and b64: "base64_correct V"
  shows "decryptConversation V (fst (encryptConversation V c p rng)) w = Inl OperationError"
proof -
  have b: "base64ToBytes V (bytesToBase64 V bs) = Inr bs" for bs
    using b64 by (simp add: base64ToBytes_def bytesToBase64_def base64_correct_def)
  have d: "aesGcmDecrypt V (deriveAesKey V w s) n (aesGcmEncrypt V (deriveAesKey V p s) n x) = None"
    for s n x
    using wk by (simp add: wrong_key_rejected_def)
  show ?thesis
    by (simp add: decryptConversation_def encryptConversation_def split_beta Let_def b d)
qed

theorem C2_vault_round_trip_witness:
  "\<exists>st' rng' convs.
     saveConversation toy_vault (createEmptyConvo 1000 ''c1'' (Some 1)) ''correct''
       ([Legacy (createEmptyConvo 2000 ''c0'' None)], 0) = Inr (st', rng')
     \<and> getAllConversations toy_vault ''correct'' st' = Inr convs
     \<and> createEmptyConvo 1000 ''c1'' (Some 1) \<in> set convs
     \<and> length convs = length st'
     \<and> sorted_wrt (\<lambda>a b. c_createdAt b \<le> c_createdAt a) convs"
proof -
  let ?R = "createEmptyConvo 1000 ''c1'' (Some 1)"
  let ?st = "[Legacy (createEmptyConvo 2000 ''c0'' None)]"
  have ne: "''correct'' \<noteq> []" by simp
  have others: "\<forall>x \<in> set ?st. stored_id x \<noteq> c_id ?R \<longrightarrow> (\<exists>c. loadItem toy_vault ''correct'' x = Inr c)"
    by simp
  show ?thesis
    by (rule C2_vault_round_trip[OF ne others toy_vault_aead_correct toy_vault_base64_correct
      toy_vault_json_roundtrip])
qed

lemma toy_vault_other_key: "wrong_key_rejected toy_vault ''other'' ''correct''"
proof -
  have "toy_tag (deriveAesKey toy_vault ''other'' salt) iv
      \<noteq> toy_tag (deriveAesKey toy_vault ''correct'' salt) iv" for salt iv
    by (simp add: toy_tag_def deriveAesKey_def toy_vault_fields)
  then show ?thesis
    by (simp add: wrong_key_rejected_def toy_vault_fields(2,3) length_toy_tag)
qed

text \<open>
  C2 as stated fails for the empty passphrase: saving raises \<open>Error("Vault is locked")\<close>, and
  loading returns no record. It also fails when the vault holds a record that was saved
  under another passphrase: saving \<open>R\<close> succeeds and the load that follows fails as a whole.
\<close>

theorem C2_locked_vault_counterexample:
  "saveConversation toy_vault (createEmptyConvo 1000 ''c1'' (Some 1)) [] ([], 0)
     = Inl (Error ''Vault is locked'')
   \<and> getAllConversations toy_vault [] [] = Inr []
   \<and> (case saveConversation toy_vault (createEmptyConvo 1000 ''c1'' (Some 1)) ''correct''
            ([Encrypted (fst (encryptConversation toy_vault (createEmptyConvo 1000 ''c0'' (Some 1)) ''other'' 7))], 0) of
         Inl e \<Rightarrow> False
       | Inr (st', rng') \<Rightarrow> isl (getAllConversations toy_vault ''correct'' st'))"
proof -
  let ?R = "createEmptyConvo 1000 ''c1'' (Some 1)"
  let ?old = "fst (encryptConversation toy_vault (createEmptyConvo 1000 ''c0'' (Some 1)) ''other'' 7)"
  let ?new = "fst (encryptConversation toy_vault ?R ''correct'' 0)"
  let ?st' = "store_put (Encrypted ?new) [Encrypted ?old]"
  have locked: "saveConversation toy_vault ?R [] ([], 0) = Inl (Error ''Vault is locked'')"
    by (simp add: saveConversation_def)
  have none: "getAllConversations toy_vault [] [] = Inr []"
    by (simp add: getAllConversations_def)
  have save: "saveConversation toy_vault ?R ''correct'' ([Encrypted ?old], 0)
      = Inr (?st', snd (encryptConversation toy_vault ?R ''correct'' 0))"
    by (rule saveConversation_nonempty) simp
  have ids: "rec_id ?old = ''c0''" "rec_id ?new = ''c1''"
    by (simp_all add: encryptConversation_def split_beta Let_def createEmptyConvo_def)
  have "Encrypted ?old \<in> set ?st'"
    by (simp add: set_store_put ids)
  moreover have "loadItem toy_vault ''correct'' (Encrypted ?old) = Inl OperationError"
    by (simp add: decrypt_wrong_key[OF toy_vault_other_key toy_vault_base64_correct])
  ultimately have "Inl OperationError \<in> set (map (loadItem toy_vault ''correct'') ?st')"
    by force
  from promise_all_Inl[OF this] obtain e where
    "promise_all (map (loadItem toy_vault ''correct'') ?st') = Inl e" ..
  then have "isl (getAllConversations toy_vault ''correct'' ?st')"
    by (simp add: getAllConversations_def store_getAll_def)
  with locked none show ?thesis
    unfolding save by simp
qed
















section \<open>Retention: expiry time and sweep\<close>








end
